theory Spec2Isabelle
  imports Main "HOL-Library.Sublist"
begin

section \<open>Python primitives used by the sources\<close>

text \<open>
  Byte strings are \<^typ>\<open>string\<close> (lists of 8-bit characters).  The functions of this
  section model built-in operations of Python byte strings and file objects that the
  sources call; each follows the documented behaviour of the built-in.
\<close>

subsection \<open>\<^verbatim>\<open>str.replace\<close>\<close>

text \<open>
  \<^verbatim>\<open>s.replace(old, new)\<close>: every non-overlapping occurrence of \<open>old\<close>, found from
  left to right, is replaced by \<open>new\<close>.  With an empty \<open>old\<close> Python inserts \<open>new\<close> before
  every character and at the end.
\<close>

function str_replace :: "string \<Rightarrow> string \<Rightarrow> string \<Rightarrow> string" where
  "str_replace old new s =
     (if old = [] then new @ concat (map (\<lambda>c. c # new) s)
      else if s = [] then []
      else if prefix old s then new @ str_replace old new (drop (length old) s)
      else hd s # str_replace old new (tl s))"
  by pat_completeness auto
termination
  by (relation "measure (\<lambda>(old, new, s). length s)") auto

declare str_replace.simps [simp del]

subsection \<open>Whitespace, \<^verbatim>\<open>split\<close>, \<^verbatim>\<open>splitlines\<close>, \<^verbatim>\<open>startswith\<close>\<close>

definition is_space :: "char \<Rightarrow> bool" where
  "is_space c = (c = CHR '' '' \<or> c = CHR 0x09 \<or> c = CHR 0x0A \<or> c = CHR 0x0B
     \<or> c = CHR 0x0C \<or> c = CHR 0x0D)"

text \<open>\<^verbatim>\<open>s.strip()\<close>: whitespace removed at both ends.\<close>

definition strip :: "string \<Rightarrow> string" where
  "strip s = rev (dropWhile is_space (rev (dropWhile is_space s)))"

text \<open>\<^verbatim>\<open>s.split(sep)\<close> for a one-character separator: always at least one piece.\<close>

fun split_on :: "char \<Rightarrow> string \<Rightarrow> string list" where
  "split_on sep [] = [[]]"
| "split_on sep (c # s) =
     (if c = sep then [] # split_on sep s
      else (case split_on sep s of [] \<Rightarrow> [[c]] | w # ws \<Rightarrow> (c # w) # ws))"

text \<open>\<^verbatim>\<open>s.split()\<close>: the maximal runs of non-whitespace characters; \<open>cur\<close> is the run
  being read, reversed.\<close>

fun split_ws_acc :: "string \<Rightarrow> string \<Rightarrow> string list" where
  "split_ws_acc cur [] = (if cur = [] then [] else [rev cur])"
| "split_ws_acc cur (c # s) =
     (if is_space c then (if cur = [] then split_ws_acc [] s else rev cur # split_ws_acc [] s)
      else split_ws_acc (c # cur) s)"

definition split_ws :: "string \<Rightarrow> string list" where
  "split_ws s = split_ws_acc [] s"

text \<open>\<^verbatim>\<open>s.splitlines()\<close> of a byte string: lines end at \<open>\n\<close>, \<open>\r\<close> or \<open>\r\n\<close>, the
  line ends are dropped, and there is no empty last line.\<close>

fun splitlines_acc :: "string \<Rightarrow> string \<Rightarrow> string list" where
  "splitlines_acc cur [] = (if cur = [] then [] else [rev cur])"
| "splitlines_acc cur [c] =
     (if c = CHR 0x0A \<or> c = CHR 0x0D then [rev cur] else [rev (c # cur)])"
| "splitlines_acc cur (c # d # s) =
     (if c = CHR 0x0D \<and> d = CHR 0x0A then rev cur # splitlines_acc [] s
      else if c = CHR 0x0A \<or> c = CHR 0x0D then rev cur # splitlines_acc [] (d # s)
      else splitlines_acc (c # cur) (d # s))"

definition splitlines :: "string \<Rightarrow> string list" where
  "splitlines s = splitlines_acc [] s"

definition startswith :: "string \<Rightarrow> string \<Rightarrow> bool" where
  "startswith s p = prefix p s"

subsection \<open>\<^verbatim>\<open>'%d' % n\<close> and \<^verbatim>\<open>int(s)\<close>\<close>

definition digit_char :: "nat \<Rightarrow> char" where
  "digit_char d = char_of (48 + d)"

function dec_nat :: "nat \<Rightarrow> string" where
  "dec_nat n = (if n < 10 then [digit_char n] else dec_nat (n div 10) @ [digit_char (n mod 10)])"
  by pat_completeness auto
termination
  by (relation "measure (\<lambda>n. n)") auto

declare dec_nat.simps [simp del]

text \<open>\<^verbatim>\<open>'%d' % i\<close> for a Python integer.\<close>

definition fmt_d :: "int \<Rightarrow> string" where
  "fmt_d i = (if i < 0 then CHR ''-'' # dec_nat (nat (- i)) else dec_nat (nat i))"

definition is_digit :: "char \<Rightarrow> bool" where
  "is_digit c = (48 \<le> (of_char c :: nat) \<and> (of_char c :: nat) \<le> 57)"

definition digits_val :: "string \<Rightarrow> nat" where
  "digits_val ds = foldl (\<lambda>acc c. 10 * acc + ((of_char c :: nat) - 48)) 0 ds"

text \<open>
  \<^verbatim>\<open>int(s)\<close> of a byte string in base 10: surrounding whitespace is ignored, then an
  optional sign and at least one decimal digit must make up the whole text; anything
  else is Python's \<^verbatim>\<open>ValueError\<close>, here \<open>None\<close>.  Two forms that some
  interpreters also accept are taken as invalid: blanks between the sign and the digits
  (Python 2) and underscores between digits (Python 3.6 and later).
\<close>

definition py_int :: "string \<Rightarrow> int option" where
  "py_int s =
     (let t = strip s;
          neg = (t \<noteq> [] \<and> hd t = CHR ''-'');
          ds = (if t \<noteq> [] \<and> (hd t = CHR ''-'' \<or> hd t = CHR ''+'') then tl t else t)
      in if ds \<noteq> [] \<and> list_all is_digit ds
         then Some (if neg then - int (digits_val ds) else int (digits_val ds))
         else None)"

subsection \<open>Exceptions and outcomes\<close>

datatype error =
    ProgrammingError string
  | CorruptedState string
  | CBORDecodeError string
  | RepoError string "string option"
  | OutOfBandError string
  | ResponseError string string
  | IOError
  | ValueError
  | IndexError
  | TypeError

text \<open>
  The outcome of a call that works on a state \<open>'s\<close>: it returns a value, raises, or
  never returns because it waits for an event that does not come.
\<close>

datatype ('a, 's) outcome = Blocked | Raised error 's | Returned 'a 's

subsection \<open>File objects on pipes\<close>

text \<open>
  A pipe end as the process sees it.  \<open>rbuf\<close> holds the bytes that the other side will
  deliver, in order; when they are used up a read reports end of file, or raises
  \<^verbatim>\<open>IOError\<close> when \<open>rerr\<close> is set.  \<open>wbuf\<close> collects the bytes written; a write raises
  \<^verbatim>\<open>IOError\<close> when \<open>werr\<close> is set (broken pipe).  Any operation but \<^verbatim>\<open>close\<close> on a
  closed file raises \<^verbatim>\<open>ValueError\<close>.
\<close>

record pipe =
  rbuf :: string
  rerr :: bool
  wbuf :: string
  werr :: bool
  closed :: bool

text \<open>The first line of a buffer, with its line end, and the rest.\<close>

fun readline_buf :: "string \<Rightarrow> string \<times> string" where
  "readline_buf [] = ([], [])"
| "readline_buf (c # s) =
     (if c = CHR 0x0A then ([c], s)
      else (case readline_buf s of (l, rest) \<Rightarrow> (c # l, rest)))"

definition pipe_readline :: "pipe \<Rightarrow> error + (string \<times> pipe)" where
  "pipe_readline p =
     (if closed p then Inl ValueError
      else if CHR 0x0A \<in> set (rbuf p)
        then Inr (fst (readline_buf (rbuf p)), p\<lparr>rbuf := snd (readline_buf (rbuf p))\<rparr>)
      else if rerr p then Inl IOError
      else Inr (rbuf p, p\<lparr>rbuf := []\<rparr>))"

text \<open>\<^verbatim>\<open>f.read(n)\<close>: blocks until \<open>n\<close> bytes or the end of file; a negative \<open>n\<close> reads
  to the end of file.\<close>

definition pipe_read :: "int \<Rightarrow> pipe \<Rightarrow> error + (string \<times> pipe)" where
  "pipe_read n p =
     (if closed p then Inl ValueError
      else if 0 \<le> n \<and> nat n \<le> length (rbuf p)
        then Inr (take (nat n) (rbuf p), p\<lparr>rbuf := drop (nat n) (rbuf p)\<rparr>)
      else if rerr p then Inl IOError
      else Inr (rbuf p, p\<lparr>rbuf := []\<rparr>))"

definition pipe_write :: "string \<Rightarrow> pipe \<Rightarrow> error + pipe" where
  "pipe_write s p =
     (if closed p then Inl ValueError
      else if werr p then Inl IOError
      else Inr (p\<lparr>wbuf := wbuf p @ s\<rparr>))"

definition pipe_flush :: "pipe \<Rightarrow> error + pipe" where
  "pipe_flush p =
     (if closed p then Inl ValueError
      else if werr p then Inl IOError
      else Inr p)"

definition pipe_close :: "pipe \<Rightarrow> pipe" where
  "pipe_close p = p\<lparr>closed := True\<rparr>"


section \<open>Command batching demo: \<^verbatim>\<open>tests/test-batching.py\<close>\<close>

definition escapearg :: "string \<Rightarrow> string" where
  "escapearg plain =
     str_replace ''='' '':=''
       (str_replace '';'' '':;''
         (str_replace '','' '':,''
           (str_replace '':'' ''::'' plain)))"

definition unescapearg :: "string \<Rightarrow> string" where
  "unescapearg escaped =
     str_replace ''::'' '':''
       (str_replace '':,'' '',''
         (str_replace '':;'' '';''
           (str_replace '':='' ''='' escaped)))"

text \<open>
  The text that \<open>escapearg\<close> produces, described character by character: a colon is
  doubled, and each character of \<open>S\<close> gets a colon in front.  The unescaping passes
  shrink \<open>S\<close> one character at a time.
\<close>

definition enc :: "char set \<Rightarrow> char \<Rightarrow> string" where
  "enc S c = (if c = CHR '':'' then ''::'' else if c \<in> S then [CHR '':'', c] else [c])"

section \<open>Command state: \<^verbatim>\<open>mercurial/state.py\<close>\<close>

subsection \<open>\<^verbatim>\<open>cmdstate\<close>\<close>

text \<open>
  The repository's private storage area (\<^verbatim>\<open>repo.vfs\<close>) maps file names to contents.
  A \<^verbatim>\<open>cmdstate\<close> object is the pair of that storage and its file name \<open>fname\<close>.
\<close>

type_synonym vfs = "string \<rightharpoonup> string"

text \<open>
  The \<open>version\<close> argument of \<^verbatim>\<open>save\<close> is dynamically typed; these are the kinds of
  value that matter to \<^verbatim>\<open>isinstance(version, int)\<close>: \<open>PyInt\<close> is an object of
  type \<^verbatim>\<open>int\<close>.  Python's \<^verbatim>\<open>bool\<close> is a subclass of \<^verbatim>\<open>int\<close>, with
  \<^verbatim>\<open>'%d' % True == '1'\<close>.
\<close>

datatype pyvalue = PyInt int | PyBool bool | PyStr string | PyNone | PyList "pyvalue list"

fun isinstance_int :: "pyvalue \<Rightarrow> bool" where
  "isinstance_int (PyInt i) = True"
| "isinstance_int (PyBool b) = True"
| "isinstance_int v = False"

fun int_of :: "pyvalue \<Rightarrow> int" where
  "int_of (PyInt i) = i"
| "int_of (PyBool b) = (if b then 1 else 0)"
| "int_of v = 0"

text \<open>
  \<^verbatim>\<open>cborutil\<close> is not among the sources, so the encoder and the decoder are parameters:
  \<open>streamencode\<close> gives the chunks of the encoding of a structured value of type \<open>'v\<close>,
  \<open>decodeall\<close> gives all the values encoded in a byte string or the decoder's error.

  \<^verbatim>\<open>save\<close> writes into an atomic temporary file, which replaces \<open>fname\<close> when the
  \<^verbatim>\<open>with\<close> block is left; the result is the exception, if any, and the storage.
\<close>

definition save ::
  "('v \<Rightarrow> string list) \<Rightarrow> vfs \<Rightarrow> string \<Rightarrow> pyvalue \<Rightarrow> 'v \<Rightarrow> error option \<times> vfs" where
  "save streamencode v fname version data =
     (if \<not> isinstance_int version
      then (Some (ProgrammingError ''version of state file should be an integer''), v)
      else
        (let fp = fmt_d (int_of version) @ [CHR 0x0A];
             fp = foldl (\<lambda>written chunk. written @ chunk) fp (streamencode data)
         in (None, v(fname \<mapsto> fp))))"

text \<open>\<^verbatim>\<open>_read\<close>.  Opening a missing file raises \<^verbatim>\<open>IOError\<close>; the file is open, so
  its reads do not fail.\<close>

definition cmdstate_read ::
  "(string \<Rightarrow> error + 'v list) \<Rightarrow> vfs \<Rightarrow> string \<Rightarrow> error + 'v" where
  "cmdstate_read decodeall v fname =
     (case v fname of
        None \<Rightarrow> Inl IOError
      | Some content \<Rightarrow>
          (case py_int (fst (readline_buf content)) of
             None \<Rightarrow> Inl (CorruptedState ''unknown version of state file found'')
           | Some ver \<Rightarrow>
               (case decodeall (snd (readline_buf content)) of
                  Inl e \<Rightarrow> Inl e
                | Inr [] \<Rightarrow> Inl IndexError
                | Inr (x # xs) \<Rightarrow> Inr x)))"

definition read :: "(string \<Rightarrow> error + 'v list) \<Rightarrow> vfs \<Rightarrow> string \<Rightarrow> error + 'v" where
  "read decodeall v fname = cmdstate_read decodeall v fname"

definition delete :: "vfs \<Rightarrow> string \<Rightarrow> vfs" where
  "delete v fname = v(fname := None)"

definition exists_file :: "vfs \<Rightarrow> string \<Rightarrow> bool" where
  "exists_file v fname = (v fname \<noteq> None)"

text \<open>
  Modelled from the spec: \<^verbatim>\<open>cborutil\<close> is not among the sources, and the spec takes
  it as a generic streaming encoder and decoder of structured values.  This is a small
  concrete one, the one-byte encodings of CBOR (major type 0, the unsigned integers
  below 24); it is used only to evaluate \<^verbatim>\<open>save\<close> and \<^verbatim>\<open>read\<close> on concrete files.
\<close>

definition uint_streamencode :: "nat \<Rightarrow> string list" where
  "uint_streamencode n = [[char_of n]]"

definition uint_decodeall :: "string \<Rightarrow> error + nat list" where
  "uint_decodeall b =
     (if list_all (\<lambda>c. (of_char c :: nat) < 24) b then Inr (map of_char b)
      else Inl (CBORDecodeError ''unsupported initial byte''))"

subsection \<open>Unfinished operations\<close>

text \<open>
  \<^verbatim>\<open>_statecheck\<close>.  The two callbacks \<^verbatim>\<open>abortfunc\<close> and \<^verbatim>\<open>continuefunc\<close> are only
  stored, so the record leaves them out.  \<open>fname\<close> is read for every operation but
  \<^verbatim>\<open>merge\<close>, which is registered without a file.  The translation function \<^verbatim>\<open>_\<close> is
  the identity (no message catalogue).
\<close>

record statecheck =
  opname :: string
  fname :: string
  clearable :: bool
  allowcommit :: bool
  reportonly :: bool
  continueflag :: bool
  stopflag :: bool
  cmdmsg :: string
  cmdhint :: string
  statushint :: string

record repo =
  vfs :: vfs
  parents :: "string list"
  skipstates :: "string list"

definition statusmsg :: "statecheck \<Rightarrow> string" where
  "statusmsg st =
     (if statushint st = []
      then (let hint = ''To continue:    hg '' @ opname st @ '' --continue'' @ [CHR 0x0A]
                       @ ''To abort:       hg '' @ opname st @ '' --abort''
            in if stopflag st
               then hint @ [CHR 0x0A] @ ''To stop:        hg '' @ opname st @ '' --stop''
               else hint)
      else statushint st)"

definition isunfinished :: "statecheck \<Rightarrow> repo \<Rightarrow> bool" where
  "isunfinished st r =
     (if opname st = ''merge'' then length (parents r) > 1
      else exists_file (vfs r) (fname st))"

text \<open>\<^verbatim>\<open>addunfinished\<close> on the registry \<^verbatim>\<open>_unfinishedstates\<close>; \<open>st\<close> is the object that
  \<^verbatim>\<open>_statecheck(opname, fname, ...)\<close> builds from the arguments.\<close>

definition addunfinished :: "statecheck list \<Rightarrow> statecheck \<Rightarrow> statecheck list" where
  "addunfinished unfinishedstates st =
     (if opname st = ''merge'' then unfinishedstates @ [st]
      else st # unfinishedstates)"

fun getrepostate_loop :: "statecheck list \<Rightarrow> repo \<Rightarrow> (string \<times> string) option" where
  "getrepostate_loop [] r = None"
| "getrepostate_loop (st # sts) r =
     (if opname st \<in> set (skipstates r) then getrepostate_loop sts r
      else if isunfinished st r then Some (opname st, statusmsg st)
      else getrepostate_loop sts r)"

definition getrepostate :: "statecheck list \<Rightarrow> repo \<Rightarrow> (string \<times> string) option" where
  "getrepostate unfinishedstates r = getrepostate_loop unfinishedstates r"

text \<open>The registry after a sequence of registrations, the first one first.\<close>

definition registered :: "statecheck list \<Rightarrow> statecheck list" where
  "registered sts = foldl addunfinished [] sts"

text \<open>An operation is pending when it is not skipped and unfinished.\<close>

definition pending :: "repo \<Rightarrow> statecheck \<Rightarrow> bool" where
  "pending r st = (opname st \<notin> set (skipstates r) \<and> isunfinished st r)"


section \<open>The SSH peer: \<^verbatim>\<open>mercurial/sshpeer.py\<close>\<close>

subsection \<open>The user interface and the side channel\<close>

text \<open>
  Modelled from the spec: \<^verbatim>\<open>ui.status\<close> and \<^verbatim>\<open>ui.debug\<close> (the diagnostic sink) are
  not among the sources.  The model records every call, with its arguments joined, in
  the order of the calls.
\<close>

datatype uiout = Status string | Debug string

text \<open>
  Modelled from the spec: \<^verbatim>\<open>procutil.readpipe\<close> is not among the sources.  It returns
  all the bytes currently available on the pipe, without blocking.
\<close>

definition readpipe :: "pipe \<Rightarrow> string \<times> pipe" where
  "readpipe p = (rbuf p, p\<lparr>rbuf := []\<rparr>)"

text \<open>\<^verbatim>\<open>_forwardoutput\<close>.  The pipe handles are file objects, which are true in a
  condition.\<close>

definition forwardoutput :: "uiout list \<Rightarrow> pipe \<Rightarrow> uiout list \<times> pipe" where
  "forwardoutput u p =
     (if fst (readpipe p) \<noteq> []
      then (u @ map (\<lambda>l. Status (''remote: '' @ l @ [CHR 0x0A])) (splitlines (fst (readpipe p))),
            snd (readpipe p))
      else (u, snd (readpipe p)))"

subsection \<open>\<^verbatim>\<open>doublepipe\<close>\<close>

text \<open>
  What one call of \<^verbatim>\<open>_wait\<close> observes: the main pipe is a \<^verbatim>\<open>bufferedinputpipe\<close> with
  buffered data, or \<^verbatim>\<open>util.poll\<close> is not implemented, or \<^verbatim>\<open>util.poll\<close> returns and says
  which of main and side are ready.  \<open>dp_events\<close> are the observations still to come;
  when there are none left, \<^verbatim>\<open>util.poll\<close> never returns.
\<close>

datatype waitev = Buffered | PollNotImplemented | Polled bool bool

record doublepipe =
  dp_ui :: "uiout list"
  dp_main :: pipe
  dp_side :: pipe
  dp_events :: "waitev list"

fun doublepipe_wait :: "waitev \<Rightarrow> bool \<times> bool" where
  "doublepipe_wait Buffered = (True, True)"
| "doublepipe_wait PollNotImplemented = (True, True)"
| "doublepipe_wait (Polled mainready sideready) = (mainready, sideready)"

definition dp_forward :: "doublepipe \<Rightarrow> doublepipe" where
  "dp_forward dp =
     dp\<lparr>dp_ui := fst (forwardoutput (dp_ui dp) (dp_side dp)),
        dp_side := snd (forwardoutput (dp_ui dp) (dp_side dp))\<rparr>"

text \<open>The method name and the argument of \<^verbatim>\<open>_call\<close>: \<open>data\<close> is \<^verbatim>\<open>None\<close> for
  \<^verbatim>\<open>readline\<close> only.  A Python 2 \<^verbatim>\<open>file.write\<close> returns \<^verbatim>\<open>None\<close>.\<close>

datatype dpcall = CallWrite string | CallRead int | CallReadline

datatype retval = RetNone | RetStr string

fun falsy_data :: "dpcall \<Rightarrow> bool" where
  "falsy_data (CallWrite data) = (data = [])"
| "falsy_data (CallRead sz) = (sz = 0)"
| "falsy_data CallReadline = False"

fun main_call :: "dpcall \<Rightarrow> pipe \<Rightarrow> error + (retval \<times> pipe)" where
  "main_call (CallWrite data) p =
     (case pipe_write data p of Inl e \<Rightarrow> Inl e | Inr p' \<Rightarrow> Inr (RetNone, p'))"
| "main_call (CallRead sz) p =
     (case pipe_read sz p of Inl e \<Rightarrow> Inl e | Inr (s, p') \<Rightarrow> Inr (RetStr s, p'))"
| "main_call CallReadline p =
     (case pipe_readline p of Inl e \<Rightarrow> Inl e | Inr (s, p') \<Rightarrow> Inr (RetStr s, p'))"

text \<open>The \<^verbatim>\<open>while True\<close> loop of \<^verbatim>\<open>_call\<close>, one observation of \<^verbatim>\<open>_wait\<close> per round.\<close>

fun doublepipe_call_loop :: "dpcall \<Rightarrow> doublepipe \<Rightarrow> waitev list \<Rightarrow> (retval, doublepipe) outcome" where
  "doublepipe_call_loop c dp [] = Blocked"
| "doublepipe_call_loop c dp (ev # evs) =
     (let dp1 = (if snd (doublepipe_wait ev) then dp_forward dp else dp)\<lparr>dp_events := evs\<rparr>
      in if fst (doublepipe_wait ev)
         then (case main_call c (dp_main dp1) of
                 Inl e \<Rightarrow> Raised e dp1
               | Inr (r, m) \<Rightarrow> Returned r (dp1\<lparr>dp_main := m\<rparr>))
         else doublepipe_call_loop c dp1 evs)"

definition doublepipe_call :: "dpcall \<Rightarrow> doublepipe \<Rightarrow> (retval, doublepipe) outcome" where
  "doublepipe_call c dp =
     (if falsy_data c \<or> closed (dp_main dp) then Returned (RetStr []) (dp_forward dp)
      else doublepipe_call_loop c dp (dp_events dp))"

definition doublepipe_write :: "string \<Rightarrow> doublepipe \<Rightarrow> (retval, doublepipe) outcome" where
  "doublepipe_write data dp = doublepipe_call (CallWrite data) dp"

definition doublepipe_read :: "int \<Rightarrow> doublepipe \<Rightarrow> (retval, doublepipe) outcome" where
  "doublepipe_read sz dp =
     (case doublepipe_call (CallRead sz) dp of
        Blocked \<Rightarrow> Blocked
      | Raised e dp' \<Rightarrow> Raised e dp'
      | Returned r dp' \<Rightarrow>
          (if sz \<noteq> 0 \<and> (r = RetNone \<or> r = RetStr [])
           then Returned r (dp_forward dp')
           else Returned r dp'))"

definition doublepipe_readline :: "doublepipe \<Rightarrow> (retval, doublepipe) outcome" where
  "doublepipe_readline dp = doublepipe_call CallReadline dp"

definition doublepipe_close :: "doublepipe \<Rightarrow> doublepipe" where
  "doublepipe_close dp = dp\<lparr>dp_main := pipe_close (dp_main dp)\<rparr>"

definition doublepipe_flush :: "doublepipe \<Rightarrow> (retval, doublepipe) outcome" where
  "doublepipe_flush dp =
     (case pipe_flush (dp_main dp) of
        Inl e \<Rightarrow> Raised e dp
      | Inr m \<Rightarrow> Returned RetNone (dp\<lparr>dp_main := m\<rparr>))"

subsection \<open>The connection and \<^verbatim>\<open>_cleanuppipes\<close>\<close>

text \<open>
  The user interface and the three pipes of the server process.  The pipe objects are
  shared: both \<^verbatim>\<open>doublepipe\<close> wrappers of a peer and the peer itself hold the same
  \<open>stderr\<close>, so the state has each pipe once.
\<close>

record conn =
  ui :: "uiout list"
  stdin :: pipe
  stdout :: pipe
  stderr :: pipe

definition conn_forward :: "'a conn_scheme \<Rightarrow> 'a conn_scheme" where
  "conn_forward c =
     c\<lparr>ui := fst (forwardoutput (ui c) (stderr c)),
       stderr := snd (forwardoutput (ui c) (stderr c))\<rparr>"

text \<open>
  \<^verbatim>\<open>for l in pipee: ui.status(_('remote: '), l)\<close> inside \<^verbatim>\<open>try\<close>: the lines are read
  until the end of file; \<^verbatim>\<open>IOError\<close> and \<^verbatim>\<open>ValueError\<close>, the only exceptions a read
  raises, end the loop silently.  The first argument bounds the number of rounds; a
  round takes at least one byte, so one more than the bytes available is enough.
\<close>

fun drain_lines :: "nat \<Rightarrow> uiout list \<Rightarrow> pipe \<Rightarrow> uiout list \<times> pipe" where
  "drain_lines 0 u p = (u, p)"
| "drain_lines (Suc n) u p =
     (case pipe_readline p of
        Inl e \<Rightarrow> (u, p)
      | Inr (l, p') \<Rightarrow>
          (if l = [] then (u, p')
           else drain_lines n (u @ [Status (''remote: '' @ l)]) p'))"

definition cleanuppipes :: "'a conn_scheme \<Rightarrow> 'a conn_scheme" where
  "cleanuppipes c =
     (let pipeo = pipe_close (stdin c);
          pipei = pipe_close (stdout c);
          drained = drain_lines (Suc (length (rbuf (stderr c)))) (ui c) (stderr c)
      in c\<lparr>ui := fst drained, stdin := pipeo, stdout := pipei,
           stderr := pipe_close (snd drained)\<rparr>)"

text \<open>The lines of a buffer with their line ends: what reading line by line to the end
  of file yields.\<close>

fun keeplines_acc :: "string \<Rightarrow> string \<Rightarrow> string list" where
  "keeplines_acc cur [] = (if cur = [] then [] else [rev cur])"
| "keeplines_acc cur (c # s) =
     (if c = CHR 0x0A then rev (c # cur) # keeplines_acc [] s
      else keeplines_acc (c # cur) s)"

definition keeplines :: "string \<Rightarrow> string list" where
  "keeplines s = keeplines_acc [] s"

subsection \<open>\<^verbatim>\<open>_performhandshake\<close>\<close>

text \<open>
  What the handshake reads from its surroundings: the two configuration switches and
  the error hint of \<^verbatim>\<open>ui\<close>, the random \<open>token\<close> (\<^verbatim>\<open>uuid.uuid4()\<close>), the protocol
  names \<^verbatim>\<open>wireprototypes.SSHV1\<close> and \<^verbatim>\<open>SSHV2\<close> (\<^verbatim>\<open>wireprotoserver.SSHV2\<close> is the
  same constant), and \<open>upgradecaps\<close>, the URL encoding of \<^verbatim>\<open>[('proto', SSHV2)]\<close>.
  The constants are not among the sources, so they are fields here.
\<close>

record sshcfg =
  advertise_v2 :: bool
  requestlog :: bool
  ssherrorhint :: "string option"
  token :: string
  upgradecaps :: string
  sshv1 :: string
  sshv2 :: string

definition badresponse :: "sshcfg \<Rightarrow> 'a conn_scheme \<Rightarrow> ('b, 'a conn_scheme) outcome" where
  "badresponse cfg c =
     Raised (RepoError ''no suitable response from remote hg'' (ssherrorhint cfg))
       (conn_forward c)"

definition pairsarg :: string where
  "pairsarg = replicate 40 (CHR ''0'') @ ''-'' @ replicate 40 (CHR ''0'')"

definition handshake_request :: "sshcfg \<Rightarrow> string" where
  "handshake_request cfg =
     (if advertise_v2 cfg
      then ''upgrade '' @ token cfg @ '' '' @ upgradecaps cfg @ [CHR 0x0A] else [])
     @ ''hello'' @ [CHR 0x0A]
     @ ''between'' @ [CHR 0x0A]
     @ ''pairs '' @ fmt_d (int (length pairsarg)) @ [CHR 0x0A]
     @ pairsarg"

definition handshake_debug :: "sshcfg \<Rightarrow> uiout list" where
  "handshake_debug cfg =
     (if advertise_v2 cfg
      then [Debug (''sending upgrade request: '' @ token cfg @ '' '' @ upgradecaps cfg
                   @ [CHR 0x0A])]
      else [])
     @ (if requestlog cfg
        then [Debug (''devel-peer-request: hello+between'' @ [CHR 0x0A]),
              Debug (''devel-peer-request:   pairs: '' @ fmt_d (int (length pairsarg))
                     @ '' bytes'' @ [CHR 0x0A])]
        else [])
     @ [Debug (''sending hello command'' @ [CHR 0x0A]),
        Debug (''sending between command'' @ [CHR 0x0A])]"

text \<open>The first \<^verbatim>\<open>try\<close> block: the request is written and flushed; \<^verbatim>\<open>IOError\<close> becomes
  \<^verbatim>\<open>badresponse()\<close>, any other exception leaves the function.\<close>

definition sendhandshake :: "sshcfg \<Rightarrow> 'a conn_scheme \<Rightarrow> (unit, 'a conn_scheme) outcome" where
  "sendhandshake cfg c =
     (let c1 = c\<lparr>ui := ui c @ handshake_debug cfg\<rparr>
      in case pipe_write (handshake_request cfg) (stdin c1) of
           Inl e \<Rightarrow> (if e = IOError then badresponse cfg c1 else Raised e c1)
         | Inr si \<Rightarrow>
             (case pipe_flush si of
                Inl e \<Rightarrow> (if e = IOError then badresponse cfg (c1\<lparr>stdin := si\<rparr>)
                          else Raised e (c1\<lparr>stdin := si\<rparr>))
              | Inr si' \<Rightarrow> Returned () (c1\<lparr>stdin := si'\<rparr>)))"

text \<open>
  \<^verbatim>\<open>reupgraded.match(l)\<close> for the pattern \<^verbatim>\<open>^upgraded <token> (.*)$\<close> with the token
  escaped: the line starts with the fixed text, and what follows has no line end, or
  one only as its last character (where \<^verbatim>\<open>$\<close> matches before it).  The result is
  group 1.
\<close>

definition reupgraded_match :: "string \<Rightarrow> string \<Rightarrow> string option" where
  "reupgraded_match tok l =
     (if prefix (''upgraded '' @ tok @ '' '') l
      then (let rest = drop (length (''upgraded '' @ tok @ '' '')) l
            in if CHR 0x0A \<notin> set rest then Some rest
               else if last rest = CHR 0x0A \<and> CHR 0x0A \<notin> set (butlast rest)
                 then Some (butlast rest)
               else None)
      else None)"

text \<open>
  The \<^verbatim>\<open>while lines[-1] and max_noise\<close> loop with its \<^verbatim>\<open>else\<close> branch; the first
  argument is \<open>max_noise\<close>.  It returns the protocol name and the lines collected.
\<close>

fun scan_response ::
  "nat \<Rightarrow> sshcfg \<Rightarrow> string list \<Rightarrow> 'a conn_scheme \<Rightarrow> (string \<times> string list, 'a conn_scheme) outcome" where
  "scan_response 0 cfg lines c = badresponse cfg c"
| "scan_response (Suc max_noise) cfg lines c =
     (if last lines = [] then badresponse cfg c
      else
        (case pipe_readline (stdout c) of
           Inl e \<Rightarrow> (if e = IOError then badresponse cfg c else Raised e c)
         | Inr (l, so) \<Rightarrow>
             (let c1 = conn_forward (c\<lparr>stdout := so\<rparr>)
              in case reupgraded_match (token cfg) l of
                   Some protoname \<Rightarrow>
                     Returned (protoname, lines)
                       (c1\<lparr>ui := ui c1 @ [Debug (''protocol upgraded to '' @ protoname
                                                  @ [CHR 0x0A])]\<rparr>)
                 | None \<Rightarrow>
                     (if last lines = [CHR ''1'', CHR 0x0A] \<and> l = [CHR 0x0A]
                      then Returned (sshv1 cfg, lines) c1
                      else scan_response max_noise cfg (lines @ [l])
                             (if l \<noteq> [] then c1\<lparr>ui := ui c1 @ [Debug (''remote: '' @ l)]\<rparr>
                              else c1)))))"

text \<open>The capability tokens of a line: \<^verbatim>\<open>s.split(':')[1].split()\<close>.\<close>

definition capstokens :: "string \<Rightarrow> error + string set" where
  "capstokens s =
     (if length (split_on (CHR '':'') s) < 2 then Inl IndexError
      else Inr (set (split_ws (split_on (CHR '':'') s ! 1))))"

text \<open>The \<^verbatim>\<open>for l in reversed(lines)\<close> loop of protocol version 1; the argument is the
  reversed list.  \<^verbatim>\<open>caps\<close> is empty before the loop.\<close>

fun legacycaps :: "string list \<Rightarrow> error + string set" where
  "legacycaps [] = Inr {}"
| "legacycaps (l # ls) =
     (if startswith l ''capabilities:'' then capstokens (butlast l)
      else legacycaps ls)"

text \<open>The branch of protocol version 2: a length line, the capabilities text of that
  length, and one more byte.\<close>

definition upgradedcaps :: "sshcfg \<Rightarrow> 'a conn_scheme \<Rightarrow> (string set, 'a conn_scheme) outcome" where
  "upgradedcaps cfg c =
     (case pipe_readline (stdout c) of
        Inl e \<Rightarrow> Raised e c
      | Inr (line, so) \<Rightarrow>
          (case py_int line of
             None \<Rightarrow> badresponse cfg (c\<lparr>stdout := so\<rparr>)
           | Some valuelen \<Rightarrow>
               (case pipe_read valuelen so of
                  Inl e \<Rightarrow> Raised e (c\<lparr>stdout := so\<rparr>)
                | Inr (capsline, so1) \<Rightarrow>
                    (if \<not> startswith capsline ''capabilities: ''
                     then badresponse cfg (c\<lparr>stdout := so1\<rparr>)
                     else
                       (let c1 = c\<lparr>stdout := so1,
                                   ui := ui c @ [Debug (''remote: '' @ capsline @ [CHR 0x0A])]\<rparr>
                        in case capstokens capsline of
                             Inl e \<Rightarrow> Raised e c1
                           | Inr caps \<Rightarrow>
                               (case pipe_read 1 so1 of
                                  Inl e \<Rightarrow> Raised e c1
                                | Inr (nl, so2) \<Rightarrow> Returned caps (c1\<lparr>stdout := so2\<rparr>)))))))"

definition findcaps ::
  "sshcfg \<Rightarrow> string \<Rightarrow> string list \<Rightarrow> 'a conn_scheme \<Rightarrow> (string set, 'a conn_scheme) outcome" where
  "findcaps cfg protoname lines c =
     (if protoname = sshv1 cfg
      then (case legacycaps (rev lines) of Inl e \<Rightarrow> Raised e c | Inr caps \<Rightarrow> Returned caps c)
      else if protoname = sshv2 cfg then upgradedcaps cfg c
      else Returned {} c)"

definition performhandshake ::
  "sshcfg \<Rightarrow> 'a conn_scheme \<Rightarrow> (string \<times> string set, 'a conn_scheme) outcome" where
  "performhandshake cfg c =
     (case sendhandshake cfg c of
        Blocked \<Rightarrow> Blocked
      | Raised e c1 \<Rightarrow> Raised e c1
      | Returned u c1 \<Rightarrow>
          (case scan_response 500 cfg [[], ''dummy''] c1 of
             Blocked \<Rightarrow> Blocked
           | Raised e c2 \<Rightarrow> Raised e c2
           | Returned (protoname, lines) c2 \<Rightarrow>
               (case findcaps cfg protoname lines c2 of
                  Blocked \<Rightarrow> Blocked
                | Raised e c3 \<Rightarrow> Raised e c3
                | Returned caps c3 \<Rightarrow>
                    (if caps = {} then badresponse cfg c3
                     else Returned (protoname, caps) (conn_forward c3)))))"

subsection \<open>\<^verbatim>\<open>sshv1peer\<close> and \<^verbatim>\<open>makepeer\<close>\<close>

text \<open>
  A peer holds the connection: \<^verbatim>\<open>_pipeo\<close> is \<open>stdin\<close>, \<^verbatim>\<open>_pipei\<close> is \<open>stdout\<close>,
  \<^verbatim>\<open>_pipee\<close> is \<open>stderr\<close>.  With \<open>autoreadstderr\<close> the first two are wrapped in a
  \<^verbatim>\<open>doublepipe\<close> whose side is \<open>stderr\<close>; \<open>events\<close> are the observations that the
  wrappers' \<^verbatim>\<open>_wait\<close> will make.  \<^verbatim>\<open>sshv2peer\<close> adds nothing to \<^verbatim>\<open>sshv1peer\<close>, so
  \<open>peerclass\<close> is a field.
\<close>

datatype peerclass = Sshv1peer | Sshv2peer

record sshv1peer = conn +
  url :: string
  caps :: "string set"
  autoreadstderr :: bool
  events :: "waitev list"
  peerclass :: peerclass

definition makepeer ::
  "sshcfg \<Rightarrow> string \<Rightarrow> conn \<Rightarrow> bool \<Rightarrow> waitev list \<Rightarrow> (sshv1peer, conn) outcome" where
  "makepeer cfg path c autoread evs =
     (case performhandshake cfg c of
        Blocked \<Rightarrow> Blocked
      | Raised e c1 \<Rightarrow> Raised e (cleanuppipes c1)
      | Returned (protoname, cs) c1 \<Rightarrow>
          (if protoname = sshv1 cfg
           then Returned (conn.extend c1 \<lparr>url = path, caps = cs, autoreadstderr = autoread,
                            events = evs, peerclass = Sshv1peer\<rparr>) c1
           else if protoname = sshv2 cfg
           then Returned (conn.extend c1 \<lparr>url = path, caps = cs, autoreadstderr = autoread,
                            events = evs, peerclass = Sshv2peer\<rparr>) c1
           else Raised (RepoError (''unknown version of SSH protocol: '' @ protoname) None)
                  (cleanuppipes c1)))"

text \<open>The peer's view of \<^verbatim>\<open>_pipeo\<close> and \<^verbatim>\<open>_pipei\<close> as \<^verbatim>\<open>doublepipe\<close> objects, and the
  peer after a call on such a view.\<close>

definition pipeo_view :: "sshv1peer \<Rightarrow> doublepipe" where
  "pipeo_view p = \<lparr>dp_ui = ui p, dp_main = stdin p, dp_side = stderr p, dp_events = events p\<rparr>"

definition pipei_view :: "sshv1peer \<Rightarrow> doublepipe" where
  "pipei_view p = \<lparr>dp_ui = ui p, dp_main = stdout p, dp_side = stderr p, dp_events = events p\<rparr>"

definition pipeo_store :: "sshv1peer \<Rightarrow> doublepipe \<Rightarrow> sshv1peer" where
  "pipeo_store p dp =
     p\<lparr>ui := dp_ui dp, stdin := dp_main dp, stderr := dp_side dp, events := dp_events dp\<rparr>"

definition pipei_store :: "sshv1peer \<Rightarrow> doublepipe \<Rightarrow> sshv1peer" where
  "pipei_store p dp =
     p\<lparr>ui := dp_ui dp, stdout := dp_main dp, stderr := dp_side dp, events := dp_events dp\<rparr>"

fun store_outcome ::
  "(doublepipe \<Rightarrow> sshv1peer) \<Rightarrow> (retval, doublepipe) outcome \<Rightarrow> (retval, sshv1peer) outcome" where
  "store_outcome st Blocked = Blocked"
| "store_outcome st (Raised e dp) = Raised e (st dp)"
| "store_outcome st (Returned r dp) = Returned r (st dp)"

definition pipeo_write :: "string \<Rightarrow> sshv1peer \<Rightarrow> (retval, sshv1peer) outcome" where
  "pipeo_write data p =
     (if autoreadstderr p then store_outcome (pipeo_store p) (doublepipe_write data (pipeo_view p))
      else (case pipe_write data (stdin p) of
              Inl e \<Rightarrow> Raised e p
            | Inr si \<Rightarrow> Returned RetNone (p\<lparr>stdin := si\<rparr>)))"

definition pipeo_flush :: "sshv1peer \<Rightarrow> (retval, sshv1peer) outcome" where
  "pipeo_flush p =
     (if autoreadstderr p then store_outcome (pipeo_store p) (doublepipe_flush (pipeo_view p))
      else (case pipe_flush (stdin p) of
              Inl e \<Rightarrow> Raised e p
            | Inr si \<Rightarrow> Returned RetNone (p\<lparr>stdin := si\<rparr>)))"

definition pipei_readline :: "sshv1peer \<Rightarrow> (retval, sshv1peer) outcome" where
  "pipei_readline p =
     (if autoreadstderr p then store_outcome (pipei_store p) (doublepipe_readline (pipei_view p))
      else (case pipe_readline (stdout p) of
              Inl e \<Rightarrow> Raised e p
            | Inr (l, so) \<Rightarrow> Returned (RetStr l) (p\<lparr>stdout := so\<rparr>)))"

definition pipei_read :: "int \<Rightarrow> sshv1peer \<Rightarrow> (retval, sshv1peer) outcome" where
  "pipei_read sz p =
     (if autoreadstderr p then store_outcome (pipei_store p) (doublepipe_read sz (pipei_view p))
      else (case pipe_read sz (stdout p) of
              Inl e \<Rightarrow> Raised e p
            | Inr (s, so) \<Rightarrow> Returned (RetStr s) (p\<lparr>stdout := so\<rparr>)))"

text \<open>\<^verbatim>\<open>close\<close> is \<^verbatim>\<open>pass\<close>.\<close>

definition sshv1peer_close :: "sshv1peer \<Rightarrow> sshv1peer" where
  "sshv1peer_close p = p"

definition sshv1peer_readerr :: "sshv1peer \<Rightarrow> sshv1peer" where
  "sshv1peer_readerr p = conn_forward p"

text \<open>\<^verbatim>\<open>_cleanup\<close>, which is also \<^verbatim>\<open>__del__\<close>.  Closing a \<^verbatim>\<open>doublepipe\<close> closes its main
  pipe, so the wrappers make no difference here.\<close>

definition sshv1peer_cleanup :: "sshv1peer \<Rightarrow> sshv1peer" where
  "sshv1peer_cleanup p = cleanuppipes p"

definition sshv1peer_abort :: "error \<Rightarrow> sshv1peer \<Rightarrow> ('a, sshv1peer) outcome" where
  "sshv1peer_abort exception p = Raised exception (sshv1peer_cleanup p)"

definition sshv1peer_getamount :: "sshv1peer \<Rightarrow> (int, sshv1peer) outcome" where
  "sshv1peer_getamount p =
     (case pipei_readline p of
        Blocked \<Rightarrow> Blocked
      | Raised e p1 \<Rightarrow> Raised e p1
      | Returned l p1 \<Rightarrow>
          (if l = RetStr [CHR 0x0A]
           then sshv1peer_abort (OutOfBandError ''check previous remote output'')
                  (if autoreadstderr p1 then sshv1peer_readerr p1 else p1)
           else
             (let p2 = (if autoreadstderr p1 then sshv1peer_readerr p1 else p1)
              in case l of
                   RetNone \<Rightarrow> Raised TypeError p2
                 | RetStr s \<Rightarrow>
                     (case py_int s of
                        None \<Rightarrow> sshv1peer_abort (ResponseError ''unexpected response:'' s) p2
                      | Some amount \<Rightarrow> Returned amount p2))))"

definition sshv1peer_readframed :: "sshv1peer \<Rightarrow> (retval, sshv1peer) outcome" where
  "sshv1peer_readframed p =
     (case sshv1peer_getamount p of
        Blocked \<Rightarrow> Blocked
      | Raised e p1 \<Rightarrow> Raised e p1
      | Returned sz p1 \<Rightarrow>
          (if sz = 0 then Returned (RetStr []) p1
           else pipei_read sz p1))"

definition sshv1peer_writeframed :: "string \<Rightarrow> bool \<Rightarrow> sshv1peer \<Rightarrow> (retval, sshv1peer) outcome" where
  "sshv1peer_writeframed data flush p =
     (case pipeo_write (fmt_d (int (length data)) @ [CHR 0x0A]) p of
        Blocked \<Rightarrow> Blocked
      | Raised e p1 \<Rightarrow> Raised e p1
      | Returned r1 p1 \<Rightarrow>
          (case (if data \<noteq> [] then pipeo_write data p1 else Returned RetNone p1) of
             Blocked \<Rightarrow> Blocked
           | Raised e p2 \<Rightarrow> Raised e p2
           | Returned r2 p2 \<Rightarrow>
               (case (if flush then pipeo_flush p2 else Returned RetNone p2) of
                  Blocked \<Rightarrow> Blocked
                | Raised e p3 \<Rightarrow> Raised e p3
                | Returned r3 p3 \<Rightarrow>
                    Returned RetNone
                      (if autoreadstderr p3 then sshv1peer_readerr p3 else p3))))"

text \<open>The first \<open>n\<close> observations exist and each finds the main pipe ready.\<close>

fun mainready :: "nat \<Rightarrow> waitev list \<Rightarrow> bool" where
  "mainready 0 evs = True"
| "mainready (Suc n) [] = False"
| "mainready (Suc n) (ev # evs) = (fst (doublepipe_wait ev) \<and> mainready n evs)"

subsection \<open>The registrations made when \<^verbatim>\<open>state.py\<close> is loaded\<close>

definition state_update :: statecheck where
  "state_update =
     \<lparr>opname = ''update'', fname = ''updatestate'', clearable = True, allowcommit = False,
      reportonly = False, continueflag = False, stopflag = False,
      cmdmsg = ''last update was interrupted'',
      cmdhint = ''use 'hg update' to get a consistent checkout'',
      statushint = ''To continue:    hg update''\<rparr>"

definition state_bisect :: statecheck where
  "state_bisect =
     \<lparr>opname = ''bisect'', fname = ''bisect.state'', clearable = False, allowcommit = True,
      reportonly = True, continueflag = False, stopflag = False,
      cmdmsg = [], cmdhint = [],
      statushint = ''To mark the changeset good:    hg bisect --good'' @ [CHR 0x0A]
        @ ''To mark the changeset bad:     hg bisect --bad'' @ [CHR 0x0A]
        @ ''To abort:                      hg bisect --reset'' @ [CHR 0x0A]\<rparr>"

text \<open>A registration of \<^verbatim>\<open>merge\<close>, as a caller of \<^verbatim>\<open>addunfinished\<close> makes it: no file,
  every other argument at its default.\<close>

definition state_merge :: statecheck where
  "state_merge =
     \<lparr>opname = ''merge'', fname = [], clearable = False, allowcommit = False,
      reportonly = False, continueflag = False, stopflag = False,
      cmdmsg = [], cmdhint = [], statushint = []\<rparr>"

subsection \<open>Concrete doublepipes and peers\<close>

text \<open>A pipe that is open, without errors, with the given bytes to read.\<close>

definition openpipe :: "string \<Rightarrow> pipe" where
  "openpipe s = \<lparr>rbuf = s, rerr = False, wbuf = [], werr = False, closed = False\<rparr>"

text \<open>A doublepipe whose main pipe is closed while two lines wait on the side.\<close>

definition closed_doublepipe :: doublepipe where
  "closed_doublepipe =
     \<lparr>dp_ui = [],
      dp_main = pipe_close (openpipe ''data''),
      dp_side = openpipe (''abort: no repo'' @ [CHR 0x0A] @ ''bye''),
      dp_events = [Polled True True]\<rparr>"

text \<open>The same with an open main pipe.\<close>

definition open_doublepipe :: doublepipe where
  "open_doublepipe = closed_doublepipe\<lparr>dp_main := openpipe ''data''\<rparr>"

text \<open>A version 1 peer with open pipes and one line waiting on \<open>stderr\<close>.\<close>

definition example_peer :: sshv1peer where
  "example_peer =
     \<lparr>ui = [], stdin = openpipe [], stdout = openpipe [],
      stderr = openpipe (''abort: push failed'' @ [CHR 0x0A]),
      url = ''ssh://host/repo'', caps = {''batch''}, autoreadstderr = True,
      events = [], peerclass = Sshv1peer\<rparr>"

text \<open>A peer about to write a frame, whose wrappers will find the main pipe ready
  twice, and a peer that has the frame of \<^verbatim>\<open>hello\<close> and more to read.\<close>

definition frame_writer :: sshv1peer where
  "frame_writer = example_peer\<lparr>events := [Polled True True, Buffered]\<rparr>"

definition frame_reader :: sshv1peer where
  "frame_reader =
     example_peer\<lparr>stdout := openpipe (''5'' @ [CHR 0x0A] @ ''hello'' @ ''rest''),
                  events := [PollNotImplemented, Polled True False]\<rparr>"

subsection \<open>Response streams\<close>

text \<open>A complete line: it ends with its only line end.\<close>

definition properline :: "string \<Rightarrow> bool" where
  "properline l = (l \<noteq> [] \<and> last l = CHR 0x0A \<and> CHR 0x0A \<notin> set (butlast l))"

text \<open>
  Lines that end the scanning of the handshake response nowhere: none is the reply to
  the upgrade request with token \<open>tok\<close>, and none is the empty line after a line
  \<^verbatim>\<open>1\<close>.  \<open>prev\<close> is the line before the first one.
\<close>

fun noise :: "string \<Rightarrow> string \<Rightarrow> string list \<Rightarrow> bool" where
  "noise tok prev [] = True"
| "noise tok prev (l # ls) =
     (reupgraded_match tok l = None
      \<and> \<not> (prev = [CHR ''1'', CHR 0x0A] \<and> l = [CHR 0x0A])
      \<and> noise tok l ls)"

text \<open>A configuration with the upgrade request switched on, and a connection with
  the given server output.\<close>

definition example_cfg :: sshcfg where
  "example_cfg =
     \<lparr>advertise_v2 = True, requestlog = False, ssherrorhint = Some ''check the server'',
      token = ''4f3c'', upgradecaps = ''proto=exp-ssh-v2-0003'',
      sshv1 = ''ssh-v1'', sshv2 = ''exp-ssh-v2-0003''\<rparr>"

definition example_conn :: "string \<Rightarrow> conn" where
  "example_conn out =
     \<lparr>ui = [], stdin = openpipe [], stdout = openpipe out, stderr = openpipe []\<rparr>"

text \<open>A text with a line end, and the responses of three servers: one that upgrades
  after a banner, one that speaks version 1 only, and one that only prints a banner.\<close>

definition textline :: "string \<Rightarrow> string" where
  "textline s = s @ [CHR 0x0A]"

definition upgraded_response :: "string list" where
  "upgraded_response = [textline ''Welcome'']"

definition legacy_response :: "string list" where
  "legacy_response =
     [textline ''0'', textline ''22'', textline ''capabilities: foo bar'', textline ''1'']"

text \<open>
  A handshake of version 1 that runs to the end of the scanning: the request can be
  written, and the response consists of the complete lines \<open>ls\<close>, the last of them
  \<^verbatim>\<open>1\<close>, then an empty line, then \<open>rest\<close>; no line of \<open>ls\<close> ends the scanning before.
\<close>

definition legacy_stream :: "sshcfg \<Rightarrow> conn \<Rightarrow> string list \<Rightarrow> string \<Rightarrow> bool" where
  "legacy_stream cfg c ls rest =
     (\<not> closed (stdin c) \<and> \<not> werr (stdin c) \<and> \<not> closed (stdout c)
      \<and> list_all properline ls \<and> noise (token cfg) ''dummy'' ls \<and> length ls < 500
      \<and> last (''dummy'' # ls) = [CHR ''1'', CHR 0x0A]
      \<and> rbuf (stdout c) = concat ls @ [CHR 0x0A] @ rest)"

text \<open>The state in which a call ends, if it ends.\<close>

fun outcome_state :: "('a, 's) outcome \<Rightarrow> 's option" where
  "outcome_state Blocked = None"
| "outcome_state (Raised e s) = Some s"
| "outcome_state (Returned r s) = Some s"

text \<open>The response of a version 1 server without a capabilities line, and the output
  of a server that upgrades and then advertises no capability.\<close>

definition nocaps_response :: "string list" where
  "nocaps_response = [textline ''0'', textline ''0'', textline ''1'']"

definition upgraded_nocaps_output :: string where
  "upgraded_nocaps_output =
     textline ''upgraded 4f3c exp-ssh-v2-0003'' @ textline ''14'' @ ''capabilities: ''
     @ [CHR 0x0A]"

section \<open>Properties\<close>

subsection \<open>Unfolding the line and the split functions\<close>

lemma readline_buf_Cons [simp]:
  "readline_buf (c # s) =
     (if c = CHR 0x0A then ([c], s) else (c # fst (readline_buf s), snd (readline_buf s)))"
  by (simp add: case_prod_unfold)

declare readline_buf.simps(2) [simp del]

lemma split_on_nonempty: "split_on sep s \<noteq> []"
  by (induction s) (simp_all split: list.splits)

lemma split_on_Cons [simp]:
  "split_on sep (c # s) =
     (if c = sep then [] # split_on sep s
      else (c # hd (split_on sep s)) # tl (split_on sep s))"
  using split_on_nonempty [of sep s] by (cases "split_on sep s") simp_all

declare split_on.simps(2) [simp del]

subsection \<open>Escaping round trip\<close>

lemma str_replace_Nil [simp]: "old \<noteq> [] \<Longrightarrow> str_replace old new [] = []"
  by (simp add: str_replace.simps)

lemma str_replace_one_Cons:
  "str_replace [a] new (c # s) = (if c = a then new else [c]) @ str_replace [a] new s"
  by (subst str_replace.simps) simp

lemma str_replace_one: "str_replace [a] new s = concat (map (\<lambda>c. if c = a then new else [c]) s)"
  by (induction s) (simp_all add: str_replace_one_Cons)

lemma str_replace_two_Cons:
  "str_replace [a, b] new (c # s) =
     (if c = a \<and> s \<noteq> [] \<and> hd s = b then new @ str_replace [a, b] new (tl s)
      else c # str_replace [a, b] new s)"
  by (subst str_replace.simps) (cases s; auto)

lemma escapearg_enc: "escapearg x = concat (map (enc {CHR '','', CHR '';'', CHR ''=''}) x)"
  unfolding escapearg_def str_replace_one
  by (induction x) (auto simp: enc_def)

lemma hd_enc:
  "b \<in> S \<Longrightarrow> b \<noteq> CHR '':'' \<Longrightarrow>
   concat (map (enc S) x) = [] \<or> hd (concat (map (enc S) x)) \<noteq> b"
  by (cases x) (auto simp: enc_def)

lemma str_replace_two_colons:
  "r = [] \<or> hd r \<noteq> b \<Longrightarrow> b \<noteq> CHR '':'' \<Longrightarrow>
   str_replace [CHR '':'', b] new (CHR '':'' # CHR '':'' # r) =
     CHR '':'' # CHR '':'' # str_replace [CHR '':'', b] new r"
  by (auto simp: str_replace_two_Cons)

lemma str_replace_two_hit:
  "str_replace [CHR '':'', b] new (CHR '':'' # b # r) = new @ str_replace [CHR '':'', b] new r"
  by (simp add: str_replace_two_Cons)

lemma str_replace_two_miss:
  "c \<noteq> b \<Longrightarrow> c \<noteq> CHR '':'' \<Longrightarrow>
   str_replace [CHR '':'', b] new (CHR '':'' # c # r) =
     CHR '':'' # c # str_replace [CHR '':'', b] new r"
  by (simp add: str_replace_two_Cons)

lemma str_replace_two_plain:
  "c \<noteq> CHR '':'' \<Longrightarrow>
   str_replace [CHR '':'', b] new (c # r) = c # str_replace [CHR '':'', b] new r"
  by (simp add: str_replace_two_Cons)

lemma unescape_stage:
  assumes "b \<in> S" "b \<noteq> CHR '':''"
  shows "str_replace [CHR '':'', b] [b] (concat (map (enc S) x)) = concat (map (enc (S - {b})) x)"
proof (induction x)
  case Nil
  show ?case by simp
next
  case (Cons c x)
  let ?r = "concat (map (enc S) x)"
  have r: "?r = [] \<or> hd ?r \<noteq> b" by (rule hd_enc [OF assms])
  consider "c = CHR '':''" | "c \<noteq> CHR '':''" "c = b" | "c \<noteq> CHR '':''" "c \<noteq> b" "c \<in> S"
    | "c \<noteq> CHR '':''" "c \<notin> S" by blast
  then show ?case
  proof cases
    case 1
    then have e: "enc S c = ''::''" "enc (S - {b}) c = ''::''"
      by (simp_all add: enc_def)
    show ?thesis
      by (simp add: e Cons.IH str_replace_two_colons [OF r assms(2)])
  next
    case 2
    then have e: "enc S c = [CHR '':'', b]" "enc (S - {b}) c = [b]"
      using assms by (simp_all add: enc_def)
    show ?thesis
      by (simp add: e Cons.IH str_replace_two_hit)
  next
    case 3
    then have e: "enc S c = [CHR '':'', c]" "enc (S - {b}) c = [CHR '':'', c]"
      by (simp_all add: enc_def)
    show ?thesis
      by (simp add: e Cons.IH str_replace_two_miss 3)
  next
    case 4
    then have e: "enc S c = [c]" "enc (S - {b}) c = [c]"
      by (simp_all add: enc_def)
    show ?thesis
      by (simp add: e Cons.IH str_replace_two_plain 4)
  qed
qed

lemma unescape_last:
  "str_replace ''::'' '':'' (concat (map (enc {}) x)) = x"
  by (induction x) (auto simp: enc_def str_replace_two_Cons)

text \<open>
  Claim C1: for every byte string \<open>x\<close>, unescaping the escaped text gives \<open>x\<close> back:
  \<^verbatim>\<open>unescapearg(escapearg(x)) == x\<close>.
\<close>

theorem unescapearg_escapearg: "unescapearg (escapearg x) = x"
proof -
  have s1: "str_replace '':='' ''='' (escapearg x) = concat (map (enc {CHR '','', CHR '';''}) x)"
    using unescape_stage [of "CHR ''=''" "{CHR '','', CHR '';'', CHR ''=''}" x]
    by (simp add: escapearg_enc insert_Diff_if)
  have s2: "str_replace '':;'' '';'' (concat (map (enc {CHR '','', CHR '';''}) x)) = concat (map (enc {CHR '',''}) x)"
    using unescape_stage [of "CHR '';''" "{CHR '','', CHR '';''}" x]
    by (simp add: insert_Diff_if)
  have s3: "str_replace '':,'' '','' (concat (map (enc {CHR '',''}) x)) = concat (map (enc {}) x)"
    using unescape_stage [of "CHR '',''" "{CHR '',''}" x]
    by (simp add: insert_Diff_if)
  show ?thesis
    unfolding unescapearg_def s1 s2 s3 by (rule unescape_last)
qed

subsection \<open>Decimal text of integers\<close>

lemma is_digit_digit_char: "d < 10 \<Longrightarrow> is_digit (digit_char d)"
  by (simp add: is_digit_def digit_char_def)

lemma digit_char_val: "d < 10 \<Longrightarrow> (of_char (digit_char d) :: nat) - 48 = d"
  by (simp add: digit_char_def)

lemma dec_nat_digits: "list_all is_digit (dec_nat n)"
proof (induction n rule: dec_nat.induct)
  case (1 n)
  show ?case
  proof (cases "n < 10")
    case True
    then show ?thesis by (subst dec_nat.simps) (simp add: is_digit_digit_char)
  next
    case False
    then show ?thesis using 1 by (subst dec_nat.simps) (simp add: is_digit_digit_char)
  qed
qed

lemma dec_nat_nonempty: "dec_nat n \<noteq> []"
  by (subst dec_nat.simps) simp

lemma digits_val_snoc: "digits_val (ds @ [c]) = 10 * digits_val ds + ((of_char c :: nat) - 48)"
  by (simp add: digits_val_def)

lemma digits_val_dec_nat: "digits_val (dec_nat n) = n"
proof (induction n rule: dec_nat.induct)
  case (1 n)
  show ?case
  proof (cases "n < 10")
    case True
    then show ?thesis
      by (subst dec_nat.simps) (simp add: digits_val_def digit_char_val)
  next
    case False
    then have "digits_val (dec_nat (n div 10)) = n div 10" using 1 by simp
    with False show ?thesis
      by (subst dec_nat.simps) (simp add: digits_val_snoc digit_char_val)
  qed
qed

lemma is_digit_not_space: "is_digit c \<Longrightarrow> \<not> is_space c"
  by (auto simp: is_digit_def is_space_def)

lemma is_digit_not_newline: "is_digit c \<Longrightarrow> c \<noteq> CHR 0x0A"
  by (auto simp: is_digit_def)

lemma is_digit_not_sign: "is_digit c \<Longrightarrow> c \<noteq> CHR ''-'' \<and> c \<noteq> CHR ''+''"
  by (auto simp: is_digit_def)

lemma strip_line:
  assumes "t \<noteq> []" "\<not> is_space (hd t)" "\<not> is_space (last t)"
  shows "strip (t @ [CHR 0x0A]) = t"
proof -
  have a: "dropWhile is_space (t @ [CHR 0x0A]) = t @ [CHR 0x0A]"
    using assms by (cases t) auto
  have b: "dropWhile is_space (rev t) = rev t"
    using assms by (cases "rev t") (auto simp: last_rev [symmetric] hd_rev)
  show ?thesis
    by (simp add: strip_def a b is_space_def)
qed

lemma list_all_hd_last: "list_all P xs \<Longrightarrow> xs \<noteq> [] \<Longrightarrow> P (hd xs) \<and> P (last xs)"
  by (cases xs) (auto simp: list_all_iff)

lemma py_int_dec_nat: "py_int (dec_nat n @ [CHR 0x0A]) = Some (int n)"
proof -
  let ?t = "dec_nat n"
  have d: "is_digit (hd ?t)" "is_digit (last ?t)"
    using list_all_hd_last [OF dec_nat_digits dec_nat_nonempty] by auto
  have s: "strip (?t @ [CHR 0x0A]) = ?t"
    using d by (intro strip_line dec_nat_nonempty is_digit_not_space)
  show ?thesis
    using d(1) is_digit_not_sign [of "hd ?t"]
    by (simp add: py_int_def s Let_def dec_nat_nonempty dec_nat_digits digits_val_dec_nat)
qed

lemma py_int_neg_dec_nat: "0 < n \<Longrightarrow> py_int (CHR ''-'' # dec_nat n @ [CHR 0x0A]) = Some (- int n)"
proof -
  let ?t = "CHR ''-'' # dec_nat n"
  have d: "is_digit (last (dec_nat n))"
    using list_all_hd_last [OF dec_nat_digits dec_nat_nonempty] by auto
  have l: "\<not> is_space (last ?t)"
    using d by (simp add: dec_nat_nonempty is_digit_not_space)
  have h: "\<not> is_space (hd ?t)"
    by (simp add: is_space_def)
  have "strip (?t @ [CHR 0x0A]) = ?t"
    using h l by (intro strip_line) simp_all
  then have s: "strip (CHR ''-'' # dec_nat n @ [CHR 0x0A]) = ?t" by simp
  show ?thesis
    by (simp add: py_int_def s Let_def dec_nat_nonempty dec_nat_digits digits_val_dec_nat)
qed

lemma py_int_fmt_d: "py_int (fmt_d i @ [CHR 0x0A]) = Some i"
proof (cases "i < 0")
  case True
  then show ?thesis using py_int_neg_dec_nat [of "nat (- i)"] by (simp add: fmt_d_def)
next
  case False
  then show ?thesis using py_int_dec_nat [of "nat i"] by (simp add: fmt_d_def)
qed

lemma newline_notin_dec_nat: "CHR 0x0A \<notin> set (dec_nat n)"
  using dec_nat_digits [of n] is_digit_not_newline by (auto simp: list_all_iff)

lemma newline_notin_fmt_d: "CHR 0x0A \<notin> set (fmt_d i)"
  using newline_notin_dec_nat by (simp add: fmt_d_def)

lemma readline_buf_line:
  "CHR 0x0A \<notin> set t \<Longrightarrow> readline_buf (t @ CHR 0x0A # rest) = (t @ [CHR 0x0A], rest)"
  by (induction t) auto

lemma fmt_d_not_empty: "fmt_d i \<noteq> []"
  by (simp add: fmt_d_def dec_nat_nonempty)

subsection \<open>The state file\<close>

lemma foldl_append_chunks: "foldl (\<lambda>written chunk. written @ chunk) fp chunks = fp @ concat chunks"
  by (induction chunks arbitrary: fp) simp_all

lemma save_file:
  "isinstance_int version \<Longrightarrow>
   save streamencode v slot version data =
     (None, v(slot \<mapsto> fmt_d (int_of version) @ [CHR 0x0A] @ concat (streamencode data)))"
  by (simp add: save_def Let_def foldl_append_chunks)

text \<open>
  Claim C9: \<^verbatim>\<open>save\<close> with a version that is not an integer raises
  \<^verbatim>\<open>ProgrammingError\<close> and leaves the storage as it was; with an integer version no
  exception is raised and the file holds the decimal version line followed by the
  encoded payload.
\<close>

theorem save_version_check:
  "(\<not> isinstance_int version \<longrightarrow>
      save streamencode v slot version data =
        (Some (ProgrammingError ''version of state file should be an integer''), v))
   \<and> (isinstance_int version \<longrightarrow>
      save streamencode v slot version data =
        (None, v(slot \<mapsto> fmt_d (int_of version) @ [CHR 0x0A] @ concat (streamencode data))))"
  by (simp add: save_file) (simp add: save_def)

text \<open>The two cases of C9 on a storage that already has the file.\<close>

theorem save_version_check_witness:
  "\<not> isinstance_int (PyStr ''1'')
   \<and> save uint_streamencode [''graftstate'' \<mapsto> ''old''] ''graftstate'' (PyStr ''1'') 5 =
       (Some (ProgrammingError ''version of state file should be an integer''),
        [''graftstate'' \<mapsto> ''old''])
   \<and> isinstance_int (PyInt 12)
   \<and> save uint_streamencode [''graftstate'' \<mapsto> ''old''] ''graftstate'' (PyInt 12) 5 =
       (None, [''graftstate'' \<mapsto> [CHR ''1'', CHR ''2'', CHR 0x0A, CHR 0x05]])"
proof -
  have e: "fmt_d (int_of (PyInt 12)) @ [CHR 0x0A] @ concat (uint_streamencode 5)
            = [CHR ''1'', CHR ''2'', CHR 0x0A, CHR 0x05]"
    by code_simp
  show ?thesis
    using save_version_check [of "PyStr ''1''" uint_streamencode
        "[''graftstate'' \<mapsto> ''old'']" "''graftstate''" 5]
      save_version_check [of "PyInt 12" uint_streamencode
        "[''graftstate'' \<mapsto> ''old'']" "''graftstate''" 5]
    unfolding e by simp
qed

text \<open>
  Claim C8: after \<^verbatim>\<open>save(version, data)\<close> with an integer version, \<^verbatim>\<open>read()\<close> of the
  same file returns the payload, for every codec that decodes the encoding of the
  payload back to it.
\<close>

theorem save_read_roundtrip:
  assumes "isinstance_int version"
    and "decodeall (concat (streamencode data)) = Inr [data]"
  shows "fst (save streamencode v slot version data) = None
    \<and> read decodeall (snd (save streamencode v slot version data)) slot = Inr data"
  using assms
  by (simp add: save_file read_def cmdstate_read_def
      readline_buf_line [OF newline_notin_fmt_d] py_int_fmt_d)

text \<open>C8 on the one-byte codec.\<close>

theorem save_read_roundtrip_witness:
  "isinstance_int (PyInt 1)
   \<and> uint_decodeall (concat (uint_streamencode 7)) = Inr [7]
   \<and> fst (save uint_streamencode Map.empty ''graftstate'' (PyInt 1) 7) = None
   \<and> read uint_decodeall (snd (save uint_streamencode Map.empty ''graftstate'' (PyInt 1) 7))
        ''graftstate'' = Inr 7"
proof -
  have a: "isinstance_int (PyInt 1)" by simp
  have b: "uint_decodeall (concat (uint_streamencode 7)) = Inr [7]"
    by (simp add: uint_decodeall_def uint_streamencode_def)
  show ?thesis
    using a b save_read_roundtrip [of "PyInt 1" uint_decodeall uint_streamencode 7 Map.empty "''graftstate''"]
    by simp
qed




subsection \<open>The registry of unfinished operations\<close>

lemma foldl_addunfinished:
  "foldl addunfinished reg sts =
     rev (filter (\<lambda>s. opname s \<noteq> ''merge'') sts) @ reg @ filter (\<lambda>s. opname s = ''merge'') sts"
  by (induction sts arbitrary: reg) (simp_all add: addunfinished_def)

lemma registered_split:
  "registered sts =
     rev (filter (\<lambda>s. opname s \<noteq> ''merge'') sts) @ filter (\<lambda>s. opname s = ''merge'') sts"
  by (simp add: registered_def foldl_addunfinished)

lemma getrepostate_loop_none:
  "(\<forall>x \<in> set xs. \<not> pending r x) \<Longrightarrow> getrepostate_loop xs r = None"
  by (induction xs) (auto simp: pending_def)

lemma getrepostate_loop_first:
  "(\<forall>x \<in> set pre. \<not> pending r x) \<Longrightarrow> pending r st \<Longrightarrow>
   getrepostate_loop (pre @ st # post) r = Some (opname st, statusmsg st)"
  by (induction pre) (auto simp: pending_def)

text \<open>
  Claim C5: \<^verbatim>\<open>addunfinished\<close> puts a descriptor at the front of the registry unless
  its name is \<^verbatim>\<open>merge\<close>, which goes to the end.  Hence, after registering
  \<open>earlier\<close>, \<open>st\<close>, \<open>later\<close> in this order, \<^verbatim>\<open>getrepostate\<close> reports \<open>st\<close> when
  \<open>st\<close> is not \<^verbatim>\<open>merge\<close>, is not skipped and its file exists, and no descriptor
  registered after it, \<^verbatim>\<open>merge\<close> apart, is pending; and it returns \<^verbatim>\<open>None\<close> when no
  registered operation is pending.
\<close>

theorem getrepostate_precedence:
  "addunfinished reg st = (if opname st = ''merge'' then reg @ [st] else st # reg)
   \<and> (opname st \<noteq> ''merge'' \<and> pending r st
        \<and> (\<forall>x \<in> set later. opname x = ''merge'' \<or> \<not> pending r x)
      \<longrightarrow> getrepostate (registered (earlier @ st # later)) r = Some (opname st, statusmsg st))
   \<and> ((\<forall>x \<in> set sts. \<not> pending r x) \<longrightarrow> getrepostate (registered sts) r = None)"
proof (intro conjI impI)
  show "addunfinished reg st = (if opname st = ''merge'' then reg @ [st] else st # reg)"
    by (simp add: addunfinished_def)
next
  assume a: "opname st \<noteq> ''merge'' \<and> pending r st
        \<and> (\<forall>x \<in> set later. opname x = ''merge'' \<or> \<not> pending r x)"
  let ?nm = "\<lambda>s. opname s \<noteq> ''merge''"
  let ?m = "\<lambda>s. opname s = ''merge''"
  have reg: "registered (earlier @ st # later) =
      rev (filter ?nm later) @ st # (rev (filter ?nm earlier) @ filter ?m (earlier @ st # later))"
    using a by (simp add: registered_split)
  have pre: "\<forall>x \<in> set (rev (filter ?nm later)). \<not> pending r x"
    using a by auto
  show "getrepostate (registered (earlier @ st # later)) r = Some (opname st, statusmsg st)"
    unfolding getrepostate_def reg
    using pre a by (intro getrepostate_loop_first) simp_all
next
  assume "\<forall>x \<in> set sts. \<not> pending r x"
  then have "\<forall>x \<in> set (registered sts). \<not> pending r x"
    by (auto simp: registered_split)
  then show "getrepostate (registered sts) r = None"
    unfolding getrepostate_def by (rule getrepostate_loop_none)
qed


text \<open>C5 on the registry of \<^verbatim>\<open>update\<close>, \<^verbatim>\<open>bisect\<close> and \<^verbatim>\<open>merge\<close>: with both files
  present and two parents, \<^verbatim>\<open>bisect\<close> is reported.\<close>

theorem getrepostate_precedence_witness:
  "opname state_bisect \<noteq> ''merge''
   \<and> pending \<lparr>vfs = [''updatestate'' \<mapsto> [], ''bisect.state'' \<mapsto> []],
        parents = [''p1'', ''p2''], skipstates = []\<rparr> state_bisect
   \<and> opname state_merge = ''merge''
   \<and> addunfinished [state_update] state_bisect = [state_bisect, state_update]
   \<and> addunfinished [state_bisect, state_update] state_merge
        = [state_bisect, state_update, state_merge]
   \<and> getrepostate (registered ([state_update] @ state_bisect # [state_merge]))
        \<lparr>vfs = [''updatestate'' \<mapsto> [], ''bisect.state'' \<mapsto> []],
         parents = [''p1'', ''p2''], skipstates = []\<rparr>
       = Some (opname state_bisect, statusmsg state_bisect)
   \<and> \<not> pending \<lparr>vfs = Map.empty, parents = [''p1''], skipstates = []\<rparr> state_update
   \<and> \<not> pending \<lparr>vfs = Map.empty, parents = [''p1''], skipstates = []\<rparr> state_bisect
   \<and> \<not> pending \<lparr>vfs = Map.empty, parents = [''p1''], skipstates = []\<rparr> state_merge
   \<and> getrepostate (registered [state_update, state_bisect, state_merge])
        \<lparr>vfs = Map.empty, parents = [''p1''], skipstates = []\<rparr> = None"
proof -
  let ?r = "\<lparr>vfs = [''updatestate'' \<mapsto> [], ''bisect.state'' \<mapsto> []],
         parents = [''p1'', ''p2''], skipstates = []\<rparr>"
  let ?q = "\<lparr>vfs = Map.empty, parents = [''p1''], skipstates = []\<rparr>"
  have h1: "opname state_bisect \<noteq> ''merge''
    \<and> pending ?r state_bisect
    \<and> (\<forall>x \<in> set [state_merge]. opname x = ''merge'' \<or> \<not> pending ?r x)"
    by (simp add: state_bisect_def state_merge_def pending_def isunfinished_def exists_file_def)
  have h2: "\<forall>x \<in> set [state_update, state_bisect, state_merge]. \<not> pending ?q x"
    by (simp add: state_update_def state_bisect_def state_merge_def pending_def
        isunfinished_def exists_file_def)
  have n: "opname state_bisect \<noteq> ''merge''" "opname state_merge = ''merge''"
    by (simp_all add: state_bisect_def state_merge_def)
  show ?thesis
    using h1 h2 n
      getrepostate_precedence [of "[state_update]" state_bisect ?r "[state_merge]" "[state_update]"
        "[state_update, state_bisect, state_merge]"]
      getrepostate_precedence [of "[state_bisect, state_update]" state_merge ?q "[]" "[]"
        "[state_update, state_bisect, state_merge]"]
    by simp
qed

subsection \<open>Calls on a doublepipe that do not reach the main pipe\<close>

lemma forwardoutput_ui:
  "fst (forwardoutput u p) =
     u @ map (\<lambda>l. Status (''remote: '' @ l @ [CHR 0x0A])) (splitlines (rbuf p))"
  by (simp add: forwardoutput_def readpipe_def splitlines_def)

lemma forwardoutput_pipe: "snd (forwardoutput u p) = p\<lparr>rbuf := []\<rparr>"
  by (simp add: forwardoutput_def readpipe_def)

lemma forwardoutput_drained: "rbuf p = [] \<Longrightarrow> forwardoutput u p = (u, p)"
  by (simp add: forwardoutput_def readpipe_def)

lemma dp_forward_again: "dp_forward (dp_forward dp) = dp_forward dp"
  by (simp add: dp_forward_def forwardoutput_pipe forwardoutput_ui splitlines_def)

text \<open>
  Claim C10: a write of empty data, a read of size 0, and any write, read or readline
  on a doublepipe whose main pipe is closed return the empty string, leave the main
  pipe as it was (no method of it is called, no observation of \<^verbatim>\<open>_wait\<close> is used), and
  forward everything available on the side pipe to \<^verbatim>\<open>ui.status\<close>, line by line.
\<close>

theorem doublepipe_trivial_calls:
  "(data = [] \<or> closed (dp_main dp)
      \<longrightarrow> doublepipe_write data dp = Returned (RetStr []) (dp_forward dp))
   \<and> (sz = 0 \<or> closed (dp_main dp)
      \<longrightarrow> doublepipe_read sz dp = Returned (RetStr []) (dp_forward dp))
   \<and> (closed (dp_main dp)
      \<longrightarrow> doublepipe_readline dp = Returned (RetStr []) (dp_forward dp))
   \<and> dp_main (dp_forward dp) = dp_main dp
   \<and> dp_events (dp_forward dp) = dp_events dp
   \<and> rbuf (dp_side (dp_forward dp)) = []
   \<and> dp_ui (dp_forward dp) =
       dp_ui dp @ map (\<lambda>l. Status (''remote: '' @ l @ [CHR 0x0A])) (splitlines (rbuf (dp_side dp)))"
proof (intro conjI impI)
  assume "data = [] \<or> closed (dp_main dp)"
  then show "doublepipe_write data dp = Returned (RetStr []) (dp_forward dp)"
    by (auto simp: doublepipe_write_def doublepipe_call_def)
next
  assume "sz = 0 \<or> closed (dp_main dp)"
  then have "doublepipe_call (CallRead sz) dp = Returned (RetStr []) (dp_forward dp)"
    by (auto simp: doublepipe_call_def)
  then show "doublepipe_read sz dp = Returned (RetStr []) (dp_forward dp)"
    by (simp add: doublepipe_read_def dp_forward_again)
next
  assume "closed (dp_main dp)"
  then show "doublepipe_readline dp = Returned (RetStr []) (dp_forward dp)"
    by (simp add: doublepipe_readline_def doublepipe_call_def)
next
  show "dp_main (dp_forward dp) = dp_main dp" by (simp add: dp_forward_def)
  show "dp_events (dp_forward dp) = dp_events dp" by (simp add: dp_forward_def)
  show "rbuf (dp_side (dp_forward dp)) = []" by (simp add: dp_forward_def forwardoutput_pipe)
  show "dp_ui (dp_forward dp) =
       dp_ui dp @ map (\<lambda>l. Status (''remote: '' @ l @ [CHR 0x0A])) (splitlines (rbuf (dp_side dp)))"
    by (simp add: dp_forward_def forwardoutput_ui)
qed


text \<open>C10 on a closed and on an open doublepipe with two lines on the side.\<close>

theorem doublepipe_trivial_calls_witness:
  "(''x'' = [] \<or> closed (dp_main closed_doublepipe))
   \<and> doublepipe_write ''x'' closed_doublepipe = Returned (RetStr []) (dp_forward closed_doublepipe)
   \<and> doublepipe_read 4 closed_doublepipe = Returned (RetStr []) (dp_forward closed_doublepipe)
   \<and> doublepipe_readline closed_doublepipe = Returned (RetStr []) (dp_forward closed_doublepipe)
   \<and> doublepipe_write [] open_doublepipe = Returned (RetStr []) (dp_forward open_doublepipe)
   \<and> doublepipe_read 0 open_doublepipe = Returned (RetStr []) (dp_forward open_doublepipe)
   \<and> dp_main (dp_forward open_doublepipe) = openpipe ''data''
   \<and> dp_ui (dp_forward open_doublepipe) =
        [Status (''remote: abort: no repo'' @ [CHR 0x0A]), Status (''remote: bye'' @ [CHR 0x0A])]"
proof -
  have c: "closed (dp_main closed_doublepipe)"
    by (simp add: closed_doublepipe_def pipe_close_def)
  have m: "dp_main open_doublepipe = openpipe ''data''"
    by (simp add: open_doublepipe_def)
  have s: "map (\<lambda>l. Status (''remote: '' @ l @ [CHR 0x0A])) (splitlines (rbuf (dp_side open_doublepipe)))
     = [Status (''remote: abort: no repo'' @ [CHR 0x0A]), Status (''remote: bye'' @ [CHR 0x0A])]"
    by code_simp
  have u: "dp_ui open_doublepipe = []"
    by (simp add: open_doublepipe_def closed_doublepipe_def)
  show ?thesis
    using c m s u doublepipe_trivial_calls [of "''x''" closed_doublepipe 4]
      doublepipe_trivial_calls [of "[]" open_doublepipe 0]
    by simp
qed

subsection \<open>Closing a peer\<close>

lemma readline_buf_length_le: "length (snd (readline_buf s)) \<le> length s"
  by (induction s) auto

lemma readline_buf_length:
  "s \<noteq> [] \<Longrightarrow> length (snd (readline_buf s)) < length s"
  using readline_buf_length_le [of "tl s"] by (cases s) (auto simp: less_Suc_eq_le)

lemma readline_buf_nonempty: "s \<noteq> [] \<Longrightarrow> fst (readline_buf s) \<noteq> []"
  by (cases s) auto

lemma keeplines_acc_line:
  "CHR 0x0A \<in> set s \<Longrightarrow>
   keeplines_acc cur s = (rev cur @ fst (readline_buf s)) # keeplines_acc [] (snd (readline_buf s))"
  by (induction s arbitrary: cur) auto

lemma keeplines_acc_rest:
  "CHR 0x0A \<notin> set s \<Longrightarrow>
   keeplines_acc cur s = (if cur = [] \<and> s = [] then [] else [rev cur @ s])"
  by (induction s arbitrary: cur) auto

lemma keeplines_line:
  "CHR 0x0A \<in> set s \<Longrightarrow>
   keeplines s = fst (readline_buf s) # keeplines (snd (readline_buf s))"
  by (simp add: keeplines_def keeplines_acc_line)

lemma keeplines_rest:
  "CHR 0x0A \<notin> set s \<Longrightarrow> keeplines s = (if s = [] then [] else [s])"
  by (simp add: keeplines_def keeplines_acc_rest)

lemma drain_lines_closed: "closed p \<Longrightarrow> drain_lines n u p = (u, p)"
  by (cases n) (simp_all add: pipe_readline_def)

lemma drain_lines_open:
  "\<not> closed p \<Longrightarrow> \<not> rerr p \<Longrightarrow> length (rbuf p) < n \<Longrightarrow>
   drain_lines n u p =
     (u @ map (\<lambda>l. Status (''remote: '' @ l)) (keeplines (rbuf p)), p\<lparr>rbuf := []\<rparr>)"
proof (induction n arbitrary: u p)
  case 0
  then show ?case by simp
next
  case (Suc n)
  show ?case
  proof (cases "CHR 0x0A \<in> set (rbuf p)")
    case True
    let ?l = "fst (readline_buf (rbuf p))"
    let ?p = "p\<lparr>rbuf := snd (readline_buf (rbuf p))\<rparr>"
    from True have ne: "rbuf p \<noteq> []" by auto
    have rl: "pipe_readline p = Inr (?l, ?p)"
      using True Suc.prems by (simp add: pipe_readline_def)
    have len: "length (rbuf ?p) < n"
      using readline_buf_length [OF ne] Suc.prems by simp
    have "drain_lines n (u @ [Status (''remote: '' @ ?l)]) ?p =
        ((u @ [Status (''remote: '' @ ?l)]) @ map (\<lambda>l. Status (''remote: '' @ l)) (keeplines (rbuf ?p)),
         ?p\<lparr>rbuf := []\<rparr>)"
      using Suc.prems len by (intro Suc.IH) simp_all
    then show ?thesis
      using readline_buf_nonempty [OF ne]
      by (simp add: rl keeplines_line [OF True])
  next
    case False
    have rl: "pipe_readline p = Inr (rbuf p, p\<lparr>rbuf := []\<rparr>)"
      using False Suc.prems by (simp add: pipe_readline_def)
    show ?thesis
    proof (cases "rbuf p = []")
      case True
      then show ?thesis by (simp add: rl keeplines_rest)
    next
      case ne: False
      have "drain_lines n (u @ [Status (''remote: '' @ rbuf p)]) (p\<lparr>rbuf := []\<rparr>)
          = (u @ [Status (''remote: '' @ rbuf p)], p\<lparr>rbuf := []\<rparr>)"
      proof (cases n)
        case 0
        then show ?thesis by simp
      next
        case (Suc m)
        then show ?thesis using Suc.prems by (simp add: pipe_readline_def)
      qed
      then show ?thesis using ne False by (simp add: rl keeplines_rest)
    qed
  qed
qed

lemma cleanuppipes_closed:
  "closed (stdin (cleanuppipes c)) \<and> closed (stdout (cleanuppipes c))
   \<and> closed (stderr (cleanuppipes c))"
  by (simp add: cleanuppipes_def Let_def pipe_close_def)

lemma cleanuppipes_forwards:
  assumes "\<not> closed (stderr c)" "\<not> rerr (stderr c)"
  shows "ui (cleanuppipes c) = ui c @ map (\<lambda>l. Status (''remote: '' @ l)) (keeplines (rbuf (stderr c)))"
    and "rbuf (stderr (cleanuppipes c)) = []"
  using assms
  by (simp_all add: cleanuppipes_def Let_def pipe_close_def drain_lines_open
      del: drain_lines.simps)

lemma cleanuppipes_again: "cleanuppipes (cleanuppipes c) = cleanuppipes c"
proof -
  have c: "closed (stderr (cleanuppipes c))" by (simp add: cleanuppipes_closed)
  show ?thesis
    by (subst (1) cleanuppipes_def)
       (simp add: Let_def drain_lines_closed [OF c] del: drain_lines.simps,
        simp add: cleanuppipes_def Let_def pipe_close_def del: drain_lines.simps)
qed

text \<open>
  Claim C3, amended: \<^verbatim>\<open>close()\<close> leaves the peer as it is.  The cleanup that runs on
  teardown (\<^verbatim>\<open>_cleanup\<close>, which is \<^verbatim>\<open>__del__\<close>) closes the three pipes; when \<open>stderr\<close>
  is open and reads without error, each of its remaining lines is passed to
  \<^verbatim>\<open>ui.status\<close> before it is closed and nothing is left unread; and a second cleanup
  changes nothing.
\<close>

theorem sshv1peer_cleanup_closes:
  "sshv1peer_close p = p
   \<and> closed (stdin (sshv1peer_cleanup p)) \<and> closed (stdout (sshv1peer_cleanup p))
   \<and> closed (stderr (sshv1peer_cleanup p))
   \<and> (\<not> closed (stderr p) \<and> \<not> rerr (stderr p) \<longrightarrow>
        ui (sshv1peer_cleanup p) =
          ui p @ map (\<lambda>l. Status (''remote: '' @ l)) (keeplines (rbuf (stderr p)))
        \<and> rbuf (stderr (sshv1peer_cleanup p)) = [])
   \<and> sshv1peer_cleanup (sshv1peer_cleanup p) = sshv1peer_cleanup p"
  by (simp add: sshv1peer_close_def sshv1peer_cleanup_def cleanuppipes_closed
      cleanuppipes_forwards cleanuppipes_again)

text \<open>The amended C3 on a peer with one line waiting on \<open>stderr\<close>.\<close>

theorem sshv1peer_cleanup_closes_witness:
  "\<not> closed (stderr example_peer) \<and> \<not> rerr (stderr example_peer)
   \<and> sshv1peer_close example_peer = example_peer
   \<and> closed (stdin (sshv1peer_cleanup example_peer))
   \<and> closed (stdout (sshv1peer_cleanup example_peer))
   \<and> closed (stderr (sshv1peer_cleanup example_peer))
   \<and> ui (sshv1peer_cleanup example_peer) = [Status (''remote: abort: push failed'' @ [CHR 0x0A])]
   \<and> rbuf (stderr (sshv1peer_cleanup example_peer)) = []
   \<and> sshv1peer_cleanup (sshv1peer_cleanup example_peer) = sshv1peer_cleanup example_peer"
proof -
  have h: "\<not> closed (stderr example_peer)" "\<not> rerr (stderr example_peer)"
    by (simp_all add: example_peer_def openpipe_def)
  have k: "ui example_peer @ map (\<lambda>l. Status (''remote: '' @ l)) (keeplines (rbuf (stderr example_peer)))
      = [Status (''remote: abort: push failed'' @ [CHR 0x0A])]"
    by code_simp
  show ?thesis
    using h k sshv1peer_cleanup_closes [of example_peer] by simp
qed

text \<open>
  Claim C3 as stated fails: after \<^verbatim>\<open>close()\<close> the pipes of this peer are still open and
  the line waiting on \<open>stderr\<close> has not been forwarded.
\<close>

theorem sshv1peer_close_counterexample:
  "\<not> closed (stdin (sshv1peer_close example_peer))
   \<and> \<not> closed (stdout (sshv1peer_close example_peer))
   \<and> \<not> closed (stderr (sshv1peer_close example_peer))
   \<and> rbuf (stderr (sshv1peer_close example_peer)) = ''abort: push failed'' @ [CHR 0x0A]
   \<and> ui (sshv1peer_close example_peer) = []"
  by (simp add: sshv1peer_close_def example_peer_def openpipe_def)

subsection \<open>Frames\<close>

lemma dp_forward_main [simp]: "dp_main (dp_forward dp) = dp_main dp"
  by (simp add: dp_forward_def)

lemma conn_forward_fields [simp]:
  "stdin (conn_forward c) = stdin c" "stdout (conn_forward c) = stdout c"
  by (simp_all add: conn_forward_def)

lemma conn_forward_peer [simp]:
  "autoreadstderr (conn_forward p) = autoreadstderr p" "events (conn_forward p) = events p"
  by (simp_all add: conn_forward_def)

lemma doublepipe_call_loop_ready:
  assumes "fst (doublepipe_wait ev)" "main_call c (dp_main dp) = Inr (r, m)"
  shows "\<exists>dp'. doublepipe_call_loop c dp (ev # evs) = Returned r dp'
           \<and> dp_main dp' = m \<and> dp_events dp' = evs"
  using assms by (simp add: Let_def)

lemma pipeo_write_ok:
  assumes "\<not> closed (stdin p)" "\<not> werr (stdin p)" "data \<noteq> []"
    and "autoreadstderr p \<longrightarrow> mainready (Suc n) (events p)"
  shows "\<exists>p'. pipeo_write data p = Returned RetNone p'
           \<and> stdin p' = (stdin p)\<lparr>wbuf := wbuf (stdin p) @ data\<rparr>
           \<and> autoreadstderr p' = autoreadstderr p
           \<and> (autoreadstderr p \<longrightarrow> mainready n (events p'))"
proof (cases "autoreadstderr p")
  case False
  then show ?thesis using assms by (simp add: pipeo_write_def pipe_write_def)
next
  case True
  with assms(4) obtain ev evs where ev: "events p = ev # evs" "fst (doublepipe_wait ev)"
    "mainready n evs"
    by (cases "events p") auto
  have mc: "main_call (CallWrite data) (dp_main (pipeo_view p))
      = Inr (RetNone, (stdin p)\<lparr>wbuf := wbuf (stdin p) @ data\<rparr>)"
    using assms by (simp add: pipeo_view_def pipe_write_def)
  from doublepipe_call_loop_ready [OF ev(2) mc, of evs]
  obtain dp' where dp': "doublepipe_call_loop (CallWrite data) (pipeo_view p) (ev # evs) = Returned RetNone dp'"
    "dp_main dp' = (stdin p)\<lparr>wbuf := wbuf (stdin p) @ data\<rparr>" "dp_events dp' = evs"
    by blast
  have "doublepipe_write data (pipeo_view p) = Returned RetNone dp'"
    using assms ev dp'(1)
    by (simp add: doublepipe_write_def doublepipe_call_def pipeo_view_def)
  then show ?thesis
    using True dp' ev by (simp add: pipeo_write_def pipeo_store_def)
qed

lemma pipeo_flush_ok:
  assumes "\<not> closed (stdin p)" "\<not> werr (stdin p)"
  shows "\<exists>p'. pipeo_flush p = Returned RetNone p' \<and> stdin p' = stdin p
           \<and> autoreadstderr p' = autoreadstderr p"
  using assms
  by (simp add: pipeo_flush_def pipe_flush_def doublepipe_flush_def pipeo_view_def pipeo_store_def)

lemma sshv1peer_writeframed_ok:
  assumes "\<not> closed (stdin p)" "\<not> werr (stdin p)"
    and "autoreadstderr p \<longrightarrow> mainready 2 (events p)"
  shows "\<exists>p'. sshv1peer_writeframed data fl p = Returned RetNone p'
           \<and> wbuf (stdin p') = wbuf (stdin p) @ fmt_d (int (length data)) @ [CHR 0x0A] @ data"
proof -
  have ne: "fmt_d (int (length data)) @ [CHR 0x0A] \<noteq> []" by simp
  have two: "autoreadstderr p \<longrightarrow> mainready (Suc 1) (events p)"
    using assms(3) by (simp add: numeral_2_eq_2)
  from pipeo_write_ok [OF assms(1,2) ne two]
  obtain p1 where p1: "pipeo_write (fmt_d (int (length data)) @ [CHR 0x0A]) p = Returned RetNone p1"
    "stdin p1 = (stdin p)\<lparr>wbuf := wbuf (stdin p) @ fmt_d (int (length data)) @ [CHR 0x0A]\<rparr>"
    "autoreadstderr p1 = autoreadstderr p" "autoreadstderr p \<longrightarrow> mainready 1 (events p1)"
    by auto
  have "\<exists>p2. (if data \<noteq> [] then pipeo_write data p1 else Returned RetNone p1) = Returned RetNone p2
      \<and> stdin p2 = (stdin p)\<lparr>wbuf := wbuf (stdin p) @ fmt_d (int (length data)) @ [CHR 0x0A] @ data\<rparr>
      \<and> autoreadstderr p2 = autoreadstderr p"
  proof (cases "data = []")
    case True
    then show ?thesis using p1 by simp
  next
    case False
    have a: "\<not> closed (stdin p1)" "\<not> werr (stdin p1)" using p1 assms by simp_all
    have b: "autoreadstderr p1 \<longrightarrow> mainready (Suc 0) (events p1)" using p1 by simp
    from pipeo_write_ok [OF a False b] show ?thesis using False p1 by auto
  qed
  then obtain p2 where p2:
    "(if data \<noteq> [] then pipeo_write data p1 else Returned RetNone p1) = Returned RetNone p2"
    "stdin p2 = (stdin p)\<lparr>wbuf := wbuf (stdin p) @ fmt_d (int (length data)) @ [CHR 0x0A] @ data\<rparr>"
    "autoreadstderr p2 = autoreadstderr p"
    by blast
  have "\<exists>p3. (if fl then pipeo_flush p2 else Returned RetNone p2) = Returned RetNone p3
      \<and> stdin p3 = stdin p2"
  proof (cases fl)
    case True
    have a: "\<not> closed (stdin p2)" "\<not> werr (stdin p2)" using p2 assms by simp_all
    from pipeo_flush_ok [OF a] show ?thesis using True by auto
  next
    case False
    then show ?thesis by simp
  qed
  then obtain p3 where p3:
    "(if fl then pipeo_flush p2 else Returned RetNone p2) = Returned RetNone p3"
    "stdin p3 = stdin p2"
    by blast
  show ?thesis
    unfolding sshv1peer_writeframed_def
    by (simp only: p1(1) p2(1) p3(1) outcome.case)
       (simp add: p3 p2 sshv1peer_readerr_def)
qed

lemma pipei_readline_ok:
  assumes "\<not> closed (stdout q)" "rbuf (stdout q) = t @ CHR 0x0A # rest" "CHR 0x0A \<notin> set t"
    and "autoreadstderr q \<longrightarrow> mainready (Suc n) (events q)"
  shows "\<exists>q'. pipei_readline q = Returned (RetStr (t @ [CHR 0x0A])) q'
           \<and> stdout q' = (stdout q)\<lparr>rbuf := rest\<rparr>
           \<and> autoreadstderr q' = autoreadstderr q
           \<and> (autoreadstderr q \<longrightarrow> mainready n (events q'))"
proof -
  have rl: "pipe_readline (stdout q) = Inr (t @ [CHR 0x0A], (stdout q)\<lparr>rbuf := rest\<rparr>)"
    using assms(1-3) by (simp add: pipe_readline_def readline_buf_line)
  show ?thesis
  proof (cases "autoreadstderr q")
    case False
    then show ?thesis by (simp add: pipei_readline_def rl)
  next
    case True
    with assms(4) obtain ev evs where ev: "events q = ev # evs" "fst (doublepipe_wait ev)"
      "mainready n evs"
      by (cases "events q") auto
    have mc: "main_call CallReadline (dp_main (pipei_view q))
        = Inr (RetStr (t @ [CHR 0x0A]), (stdout q)\<lparr>rbuf := rest\<rparr>)"
      by (simp add: pipei_view_def rl)
    from doublepipe_call_loop_ready [OF ev(2) mc, of evs]
    obtain dp' where dp':
      "doublepipe_call_loop CallReadline (pipei_view q) (ev # evs) = Returned (RetStr (t @ [CHR 0x0A])) dp'"
      "dp_main dp' = (stdout q)\<lparr>rbuf := rest\<rparr>" "dp_events dp' = evs"
      by blast
    have "doublepipe_readline (pipei_view q) = Returned (RetStr (t @ [CHR 0x0A])) dp'"
      using assms(1) ev dp'(1)
      by (simp add: doublepipe_readline_def doublepipe_call_def pipei_view_def)
    then show ?thesis
      using True dp' ev by (simp add: pipei_readline_def pipei_store_def)
  qed
qed

lemma pipei_read_ok:
  assumes "\<not> closed (stdout q)" "rbuf (stdout q) = b @ rest" "b \<noteq> []"
    and "autoreadstderr q \<longrightarrow> mainready (Suc n) (events q)"
  shows "\<exists>q'. pipei_read (int (length b)) q = Returned (RetStr b) q'
           \<and> stdout q' = (stdout q)\<lparr>rbuf := rest\<rparr>"
proof -
  have rd: "pipe_read (int (length b)) (stdout q) = Inr (b, (stdout q)\<lparr>rbuf := rest\<rparr>)"
    using assms(1-2) by (simp add: pipe_read_def)
  show ?thesis
  proof (cases "autoreadstderr q")
    case False
    then show ?thesis by (simp add: pipei_read_def rd)
  next
    case True
    with assms(4) obtain ev evs where ev: "events q = ev # evs" "fst (doublepipe_wait ev)"
      by (cases "events q") auto
    have mc: "main_call (CallRead (int (length b))) (dp_main (pipei_view q))
        = Inr (RetStr b, (stdout q)\<lparr>rbuf := rest\<rparr>)"
      by (simp add: pipei_view_def rd)
    from doublepipe_call_loop_ready [OF ev(2) mc, of evs]
    obtain dp' where dp':
      "doublepipe_call_loop (CallRead (int (length b))) (pipei_view q) (ev # evs) = Returned (RetStr b) dp'"
      "dp_main dp' = (stdout q)\<lparr>rbuf := rest\<rparr>"
      by blast
    have "doublepipe_call (CallRead (int (length b))) (pipei_view q) = Returned (RetStr b) dp'"
      using assms(1,3) ev dp'(1)
      by (simp add: doublepipe_call_def pipei_view_def)
    then have "doublepipe_read (int (length b)) (pipei_view q) = Returned (RetStr b) dp'"
      using assms(3) by (simp add: doublepipe_read_def)
    then show ?thesis
      using True dp' by (simp add: pipei_read_def pipei_store_def)
  qed
qed

lemma sshv1peer_getamount_ok:
  assumes "\<not> closed (stdout q)" "rbuf (stdout q) = fmt_d i @ CHR 0x0A # rest"
    and "autoreadstderr q \<longrightarrow> mainready (Suc n) (events q)"
  shows "\<exists>q'. sshv1peer_getamount q = Returned i q'
           \<and> stdout q' = (stdout q)\<lparr>rbuf := rest\<rparr>
           \<and> autoreadstderr q' = autoreadstderr q
           \<and> (autoreadstderr q \<longrightarrow> mainready n (events q'))"
proof -
  from pipei_readline_ok [OF assms(1,2) newline_notin_fmt_d assms(3)]
  obtain q1 where q1: "pipei_readline q = Returned (RetStr (fmt_d i @ [CHR 0x0A])) q1"
    "stdout q1 = (stdout q)\<lparr>rbuf := rest\<rparr>" "autoreadstderr q1 = autoreadstderr q"
    "autoreadstderr q \<longrightarrow> mainready n (events q1)"
    by blast
  have ne: "fmt_d i @ [CHR 0x0A] \<noteq> [CHR 0x0A]"
    using fmt_d_not_empty [of i] by simp
  show ?thesis
    unfolding sshv1peer_getamount_def
    by (simp only: q1(1) outcome.case)
       (simp add: fmt_d_not_empty Let_def py_int_fmt_d q1 sshv1peer_readerr_def)
qed

lemma sshv1peer_readframed_ok:
  assumes "\<not> closed (stdout q)"
    and "rbuf (stdout q) = fmt_d (int (length b)) @ [CHR 0x0A] @ b @ rest"
    and "autoreadstderr q \<longrightarrow> mainready 2 (events q)"
  shows "\<exists>q'. sshv1peer_readframed q = Returned (RetStr b) q' \<and> rbuf (stdout q') = rest"
proof -
  have two: "autoreadstderr q \<longrightarrow> mainready (Suc (Suc 0)) (events q)"
    using assms(3) by (simp add: numeral_2_eq_2)
  have buf: "rbuf (stdout q) = fmt_d (int (length b)) @ CHR 0x0A # (b @ rest)"
    using assms(2) by simp
  from sshv1peer_getamount_ok [OF assms(1) buf two]
  obtain q1 where q1: "sshv1peer_getamount q = Returned (int (length b)) q1"
    "stdout q1 = (stdout q)\<lparr>rbuf := b @ rest\<rparr>" "autoreadstderr q1 = autoreadstderr q"
    "autoreadstderr q \<longrightarrow> mainready (Suc 0) (events q1)"
    by blast
  show ?thesis
  proof (cases "b = []")
    case True
    then show ?thesis
      unfolding sshv1peer_readframed_def by (simp add: q1)
  next
    case False
    have a: "\<not> closed (stdout q1)" "rbuf (stdout q1) = b @ rest"
      "autoreadstderr q1 \<longrightarrow> mainready (Suc 0) (events q1)"
      using q1 assms(1) by simp_all
    from pipei_read_ok [OF a(1,2) False a(3)]
    obtain q2 where "pipei_read (int (length b)) q1 = Returned (RetStr b) q2"
      "stdout q2 = (stdout q1)\<lparr>rbuf := rest\<rparr>"
      by blast
    then show ?thesis
      unfolding sshv1peer_readframed_def using False by (simp add: q1)
  qed
qed

lemma sshv1peer_readframed_zero:
  "sshv1peer_getamount q = Returned 0 q' \<Longrightarrow> sshv1peer_readframed q = Returned (RetStr []) q'"
  by (simp add: sshv1peer_readframed_def)

text \<open>
  Claim C6: on a peer whose \<open>stdin\<close> is open and writable, \<^verbatim>\<open>_writeframed(b)\<close> returns
  (for every \<open>b\<close>, the empty string too), and whenever the bytes it has appended to
  \<open>stdin\<close> are the next bytes on the \<open>stdout\<close> of a peer, \<^verbatim>\<open>_readframed()\<close> of that peer
  returns exactly \<open>b\<close> and leaves what follows the frame unread.  With
  \<open>autoreadstderr\<close> the wrappers must find the main pipe ready, at most twice for each
  call.  When the length read is zero, \<^verbatim>\<open>_readframed\<close> returns the empty string in the
  state that \<^verbatim>\<open>_getamount\<close> leaves: the payload is not read.
\<close>

theorem framed_roundtrip:
  assumes "\<not> closed (stdin w)" "\<not> werr (stdin w)"
    and "autoreadstderr w \<longrightarrow> mainready 2 (events w)"
  shows "\<exists>w'. sshv1peer_writeframed b fl w = Returned RetNone w'
           \<and> (\<forall>q rest.
                 \<not> closed (stdout q)
                 \<and> (autoreadstderr q \<longrightarrow> mainready 2 (events q))
                 \<and> rbuf (stdout q) = drop (length (wbuf (stdin w))) (wbuf (stdin w')) @ rest
                 \<longrightarrow> (\<exists>q'. sshv1peer_readframed q = Returned (RetStr b) q'
                            \<and> rbuf (stdout q') = rest))
           \<and> (\<forall>q q'. sshv1peer_getamount q = Returned 0 q'
                 \<longrightarrow> sshv1peer_readframed q = Returned (RetStr []) q')"
proof -
  from sshv1peer_writeframed_ok [OF assms, of b fl]
  obtain w' where w': "sshv1peer_writeframed b fl w = Returned RetNone w'"
    "wbuf (stdin w') = wbuf (stdin w) @ fmt_d (int (length b)) @ [CHR 0x0A] @ b"
    by blast
  have "\<exists>q'. sshv1peer_readframed q = Returned (RetStr b) q' \<and> rbuf (stdout q') = rest"
    if "\<not> closed (stdout q)" "autoreadstderr q \<longrightarrow> mainready 2 (events q)"
      "rbuf (stdout q) = drop (length (wbuf (stdin w))) (wbuf (stdin w')) @ rest"
    for q rest
    using that sshv1peer_readframed_ok [of q b rest] by (simp add: w'(2))
  then show ?thesis
    using w'(1) sshv1peer_readframed_zero by blast
qed

text \<open>C6 for the frame of \<^verbatim>\<open>hello\<close>, written and read through doublepipes.\<close>

theorem framed_roundtrip_witness:
  "\<not> closed (stdin frame_writer) \<and> \<not> werr (stdin frame_writer)
   \<and> autoreadstderr frame_writer \<and> mainready 2 (events frame_writer)
   \<and> (\<exists>w'. sshv1peer_writeframed ''hello'' True frame_writer = Returned RetNone w'
          \<and> wbuf (stdin w') = ''5'' @ [CHR 0x0A] @ ''hello'')
   \<and> (\<exists>q'. sshv1peer_readframed frame_reader = Returned (RetStr ''hello'') q'
          \<and> rbuf (stdout q') = ''rest'')"
proof -
  have h: "\<not> closed (stdin frame_writer)" "\<not> werr (stdin frame_writer)"
    by (simp_all add: frame_writer_def example_peer_def openpipe_def)
  have a: "autoreadstderr frame_writer" "mainready 2 (events frame_writer)"
    by (simp_all add: frame_writer_def example_peer_def numeral_2_eq_2)
  then have h3: "autoreadstderr frame_writer \<longrightarrow> mainready 2 (events frame_writer)"
    by simp
  from framed_roundtrip [OF h h3, of "''hello''" True]
  obtain w' where w: "sshv1peer_writeframed ''hello'' True frame_writer = Returned RetNone w'"
    and rd: "\<And>q rest. \<not> closed (stdout q) \<Longrightarrow> autoreadstderr q \<longrightarrow> mainready 2 (events q) \<Longrightarrow>
        rbuf (stdout q) = drop (length (wbuf (stdin frame_writer))) (wbuf (stdin w')) @ rest \<Longrightarrow>
        \<exists>q'. sshv1peer_readframed q = Returned (RetStr ''hello'') q' \<and> rbuf (stdout q') = rest"
    by blast
  have "case sshv1peer_writeframed ''hello'' True frame_writer of
          Returned r w'' \<Rightarrow> wbuf (stdin w'') = ''5'' @ [CHR 0x0A] @ ''hello''
        | Raised e w'' \<Rightarrow> False | Blocked \<Rightarrow> False"
    by code_simp
  then have wb: "wbuf (stdin w') = ''5'' @ [CHR 0x0A] @ ''hello''"
    by (simp add: w)
  have q: "\<not> closed (stdout frame_reader)"
    "autoreadstderr frame_reader \<longrightarrow> mainready 2 (events frame_reader)"
    "rbuf (stdout frame_reader) = drop (length (wbuf (stdin frame_writer))) (wbuf (stdin w')) @ ''rest''"
    by (simp_all add: wb frame_reader_def frame_writer_def example_peer_def openpipe_def
        numeral_2_eq_2)
  from rd [OF q] h a w wb show ?thesis by simp
qed

subsection \<open>Scanning the response to the handshake\<close>

lemma properline_split: "properline l \<Longrightarrow> \<exists>t. l = t @ [CHR 0x0A] \<and> CHR 0x0A \<notin> set t"
  by (metis append_butlast_last_id properline_def)

lemma pipe_readline_proper:
  assumes "\<not> closed p" "properline l" "rbuf p = l @ rest"
  shows "pipe_readline p = Inr (l, p\<lparr>rbuf := rest\<rparr>)"
proof -
  from properline_split [OF assms(2)] obtain t where t: "l = t @ [CHR 0x0A]" "CHR 0x0A \<notin> set t"
    by blast
  then show ?thesis
    using assms(1,3) readline_buf_line [OF t(2), of rest]
    by (simp add: pipe_readline_def)
qed

lemma reupgraded_match_newline: "reupgraded_match tok [CHR 0x0A] = None"
  by (simp add: reupgraded_match_def)

lemma reupgraded_match_empty: "reupgraded_match tok [] = None"
  by (simp add: reupgraded_match_def)

lemma scan_response_noise:
  assumes "list_all properline ls" "noise (token cfg) (last lines) ls" "\<not> closed (stdout c)"
    and "last lines \<noteq> []" "rbuf (stdout c) = concat ls @ rest" "length ls \<le> n"
  shows "\<exists>c'. scan_response n cfg lines c = scan_response (n - length ls) cfg (lines @ ls) c'
            \<and> stdout c' = (stdout c)\<lparr>rbuf := rest\<rparr>"
  using assms
proof (induction ls arbitrary: n lines c)
  case Nil
  then show ?case by (intro exI [of _ c]) simp
next
  case (Cons l ls)
  from Cons.prems obtain m where n: "n = Suc m" "length ls \<le> m" by (cases n) auto
  have l: "properline l" "l \<noteq> []" using Cons.prems(1) by (auto simp: properline_def)
  have rl: "pipe_readline (stdout c) = Inr (l, (stdout c)\<lparr>rbuf := concat ls @ rest\<rparr>)"
    using Cons.prems by (intro pipe_readline_proper l) simp_all
  let ?c1 = "conn_forward (c\<lparr>stdout := (stdout c)\<lparr>rbuf := concat ls @ rest\<rparr>\<rparr>)"
  let ?c2 = "?c1\<lparr>ui := ui ?c1 @ [Debug (''remote: '' @ l)]\<rparr>"
  have nm: "reupgraded_match (token cfg) l = None"
    "\<not> (last lines = [CHR ''1'', CHR 0x0A] \<and> l = [CHR 0x0A])"
    using Cons.prems(2) by auto
  have step: "scan_response n cfg lines c = scan_response m cfg (lines @ [l]) ?c2"
    using Cons.prems(4) nm l(2) by (auto simp: n rl Let_def conn_forward_def)
  have "\<exists>c'. scan_response m cfg (lines @ [l]) ?c2
            = scan_response (m - length ls) cfg ((lines @ [l]) @ ls) c'
          \<and> stdout c' = (stdout ?c2)\<lparr>rbuf := rest\<rparr>"
    using Cons.prems n l by (intro Cons.IH) (simp_all add: conn_forward_def)
  then obtain c' where c':
    "scan_response m cfg (lines @ [l]) ?c2
       = scan_response (m - length ls) cfg ((lines @ [l]) @ ls) c'"
    "stdout c' = (stdout ?c2)\<lparr>rbuf := rest\<rparr>"
    by blast
  have "scan_response n cfg lines c
      = scan_response (n - length (l # ls)) cfg (lines @ l # ls) c'"
    using step c'(1) by (simp add: n del: scan_response.simps)
  moreover have "stdout c' = (stdout c)\<lparr>rbuf := rest\<rparr>"
    using c'(2) by (simp add: conn_forward_def)
  ultimately show ?case by blast
qed


lemma last_lines: "last ([[], ''dummy''] @ ls) = last (''dummy'' # ls)"
  by (cases ls) simp_all

lemma last_proper: "list_all properline ls \<Longrightarrow> last (''dummy'' # ls) \<noteq> []"
  by (induction ls) (auto simp: properline_def)

lemma scan_response_upgraded:
  assumes "list_all properline ls" "noise (token cfg) ''dummy'' ls" "\<not> closed (stdout c)"
    and "length ls < 500" "properline l" "reupgraded_match (token cfg) l = Some v"
    and "rbuf (stdout c) = concat ls @ l @ rest"
  shows "\<exists>c'. scan_response 500 cfg [[], ''dummy''] c = Returned (v, [[], ''dummy''] @ ls) c'
            \<and> rbuf (stdout c') = rest"
proof -
  from assms(4) obtain k where k: "500 - length ls = Suc k"
    by (cases "500 - length ls") auto
  have "\<exists>c'. scan_response 500 cfg [[], ''dummy''] c
            = scan_response (500 - length ls) cfg ([[], ''dummy''] @ ls) c'
          \<and> stdout c' = (stdout c)\<lparr>rbuf := l @ rest\<rparr>"
    using assms by (intro scan_response_noise) simp_all
  then obtain c1 where c1:
    "scan_response 500 cfg [[], ''dummy''] c = scan_response (Suc k) cfg ([[], ''dummy''] @ ls) c1"
    "stdout c1 = (stdout c)\<lparr>rbuf := l @ rest\<rparr>"
    unfolding k by blast
  have rl: "pipe_readline (stdout c1) = Inr (l, (stdout c1)\<lparr>rbuf := rest\<rparr>)"
    using assms(3,5) c1(2) by (intro pipe_readline_proper) simp_all
  have ne: "last ([[], ''dummy''] @ ls) \<noteq> []"
    using last_proper [OF assms(1)] unfolding last_lines .
  show ?thesis
    unfolding c1(1) using ne
    by (simp add: rl assms(6) Let_def conn_forward_def del: append.simps last.simps)
qed

lemma scan_response_legacy:
  assumes "list_all properline ls" "noise (token cfg) ''dummy'' ls" "\<not> closed (stdout c)"
    and "length ls < 500" "last (''dummy'' # ls) = [CHR ''1'', CHR 0x0A]"
    and "rbuf (stdout c) = concat ls @ [CHR 0x0A] @ rest"
  shows "\<exists>c'. scan_response 500 cfg [[], ''dummy''] c
              = Returned (sshv1 cfg, [[], ''dummy''] @ ls) c'
            \<and> rbuf (stdout c') = rest"
proof -
  from assms(4) obtain k where k: "500 - length ls = Suc k"
    by (cases "500 - length ls") auto
  have "\<exists>c'. scan_response 500 cfg [[], ''dummy''] c
            = scan_response (500 - length ls) cfg ([[], ''dummy''] @ ls) c'
          \<and> stdout c' = (stdout c)\<lparr>rbuf := [CHR 0x0A] @ rest\<rparr>"
    using assms by (intro scan_response_noise) simp_all
  then obtain c1 where c1:
    "scan_response 500 cfg [[], ''dummy''] c = scan_response (Suc k) cfg ([[], ''dummy''] @ ls) c1"
    "stdout c1 = (stdout c)\<lparr>rbuf := [CHR 0x0A] @ rest\<rparr>"
    unfolding k by blast
  have rl: "pipe_readline (stdout c1) = Inr ([CHR 0x0A], (stdout c1)\<lparr>rbuf := rest\<rparr>)"
    using assms(3) c1(2) by (intro pipe_readline_proper) (simp_all add: properline_def)
  have la: "last ([[], ''dummy''] @ ls) = [CHR ''1'', CHR 0x0A]"
    using assms(5) unfolding last_lines .
  show ?thesis
    unfolding c1(1) using la
    by (simp add: rl reupgraded_match_newline Let_def conn_forward_def
        del: append.simps last.simps)
qed

lemma scan_response_budget:
  assumes "list_all properline ls" "noise (token cfg) ''dummy'' ls" "\<not> closed (stdout c)"
    and "500 \<le> length ls" "rbuf (stdout c) = concat ls @ rest"
  shows "\<exists>c'. scan_response 500 cfg [[], ''dummy''] c
              = Raised (RepoError ''no suitable response from remote hg'' (ssherrorhint cfg)) c'"
proof -
  have ls: "ls = take 500 ls @ drop 500 ls" by simp
  have pr: "list_all properline (take 500 ls)"
    using assms(1) by (auto simp: list_all_iff dest: in_set_takeD)
  have no: "noise (token cfg) prev (take n ls)" if "noise (token cfg) prev ls" for prev n
    using that
  proof (induction ls arbitrary: prev n)
    case Nil
    then show ?case by simp
  next
    case (Cons a ls)
    then show ?case by (cases n) auto
  qed
  have buf: "rbuf (stdout c) = concat (take 500 ls) @ (concat (drop 500 ls) @ rest)"
    using assms(5) by (metis append.assoc append_take_drop_id concat_append)
  have "\<exists>c'. scan_response 500 cfg [[], ''dummy''] c
            = scan_response (500 - length (take 500 ls)) cfg ([[], ''dummy''] @ take 500 ls) c'
          \<and> stdout c' = (stdout c)\<lparr>rbuf := concat (drop 500 ls) @ rest\<rparr>"
    using pr no [OF assms(2)] assms(3) buf by (intro scan_response_noise) simp_all
  then show ?thesis
    using assms(4) by (auto simp: badresponse_def)
qed

lemma scan_response_eof:
  assumes "list_all properline ls" "noise (token cfg) ''dummy'' ls" "\<not> closed (stdout c)"
    and "length ls < 500" "rbuf (stdout c) = concat ls"
  shows "\<exists>c'. scan_response 500 cfg [[], ''dummy''] c
              = Raised (RepoError ''no suitable response from remote hg'' (ssherrorhint cfg)) c'"
proof -
  from assms(4) obtain k where k: "500 - length ls = Suc k"
    by (cases "500 - length ls") auto
  have "\<exists>c'. scan_response 500 cfg [[], ''dummy''] c
            = scan_response (500 - length ls) cfg ([[], ''dummy''] @ ls) c'
          \<and> stdout c' = (stdout c)\<lparr>rbuf := []\<rparr>"
    using assms by (intro scan_response_noise) simp_all
  then obtain c1 where c1:
    "scan_response 500 cfg [[], ''dummy''] c = scan_response (Suc k) cfg ([[], ''dummy''] @ ls) c1"
    "stdout c1 = (stdout c)\<lparr>rbuf := []\<rparr>"
    unfolding k by blast
  have ne: "last ([[], ''dummy''] @ ls) \<noteq> []"
    using last_proper [OF assms(1)] unfolding last_lines .
  have nl: "last ([[], ''dummy''] @ ls) \<noteq> [CHR ''1'', CHR 0x0A] \<or> ([]::string) \<noteq> [CHR 0x0A]"
    by simp
  show ?thesis
  proof (cases "rerr (stdout c)")
    case True
    then have "pipe_readline (stdout c1) = Inl IOError"
      using assms(3) c1(2) by (simp add: pipe_readline_def)
    then show ?thesis
      unfolding c1(1) using ne
      by (simp add: badresponse_def del: append.simps last.simps)
  next
    case False
    then have rl: "pipe_readline (stdout c1) = Inr ([], stdout c1)"
      using assms(3) c1(2) by (simp add: pipe_readline_def)
    have "\<exists>c'. scan_response k cfg (([[], ''dummy''] @ ls) @ [[]]) c2
        = Raised (RepoError ''no suitable response from remote hg'' (ssherrorhint cfg)) c'" for c2 :: "'a conn_scheme"
      by (cases k) (simp_all add: badresponse_def)
    then show ?thesis
      unfolding c1(1) using ne
      by (simp add: rl reupgraded_match_empty Let_def del: append.simps last.simps)
  qed
qed

lemma sendhandshake_cases:
  assumes "\<not> closed (stdin c)"
  shows "(\<exists>c1. sendhandshake cfg c = Returned () c1 \<and> stdout c1 = stdout c)
       \<or> (\<exists>c'. sendhandshake cfg c
                 = Raised (RepoError ''no suitable response from remote hg'' (ssherrorhint cfg)) c')"
  using assms
  by (auto simp: sendhandshake_def Let_def pipe_write_def pipe_flush_def badresponse_def)

lemma performhandshake_scan_raised:
  assumes "\<not> closed (stdin c)"
    and "\<And>c1 :: 'a conn_scheme. stdout c1 = stdout c \<Longrightarrow>
           \<exists>c'. scan_response 500 cfg [[], ''dummy''] c1
                  = Raised (RepoError ''no suitable response from remote hg'' (ssherrorhint cfg)) c'"
  shows "\<exists>c'. performhandshake cfg (c :: 'a conn_scheme)
                = Raised (RepoError ''no suitable response from remote hg'' (ssherrorhint cfg)) c'"
proof -
  from sendhandshake_cases [OF assms(1), of cfg]
  show ?thesis
  proof
    assume "\<exists>c1. sendhandshake cfg c = Returned () c1 \<and> stdout c1 = stdout c"
    then obtain c1 where c1: "sendhandshake cfg c = Returned () c1" "stdout c1 = stdout c"
      by blast
    from assms(2) [OF c1(2)] obtain c' where
      "scan_response 500 cfg [[], ''dummy''] c1
         = Raised (RepoError ''no suitable response from remote hg'' (ssherrorhint cfg)) c'"
      by blast
    then show ?thesis by (simp add: performhandshake_def c1(1))
  next
    assume "\<exists>c'. sendhandshake cfg c
                 = Raised (RepoError ''no suitable response from remote hg'' (ssherrorhint cfg)) c'"
    then show ?thesis by (auto simp: performhandshake_def)
  qed
qed

text \<open>
  Claim C2: let the response begin with the complete lines \<open>ls\<close>, none of which ends
  the scanning.  If the next line is the reply \<^verbatim>\<open>upgraded <token> <version>\<close> and the
  budget of 500 lines is not used up, the scanning stops there with that version: the
  lines after it are left unread.  If the last of \<open>ls\<close> is \<^verbatim>\<open>1\<close> and an empty line
  follows, the scanning stops with version 1.  If \<open>ls\<close> has 500 lines or more, or the
  response ends after \<open>ls\<close>, the scanning and the whole handshake raise the error
  \<^verbatim>\<open>no suitable response from remote hg\<close>.
\<close>

theorem handshake_scanning:
  assumes "list_all properline ls" "noise (token cfg) ''dummy'' ls" "\<not> closed (stdout c)"
  shows
    "(length ls < 500 \<and> properline l \<and> reupgraded_match (token cfg) l = Some v
        \<and> rbuf (stdout c) = concat ls @ l @ rest
      \<longrightarrow> (\<exists>c'. scan_response 500 cfg [[], ''dummy''] c = Returned (v, [[], ''dummy''] @ ls) c'
                \<and> rbuf (stdout c') = rest))
     \<and> (length ls < 500 \<and> last (''dummy'' # ls) = [CHR ''1'', CHR 0x0A]
        \<and> rbuf (stdout c) = concat ls @ [CHR 0x0A] @ rest
      \<longrightarrow> (\<exists>c'. scan_response 500 cfg [[], ''dummy''] c
                  = Returned (sshv1 cfg, [[], ''dummy''] @ ls) c'
                \<and> rbuf (stdout c') = rest))
     \<and> ((500 \<le> length ls \<and> rbuf (stdout c) = concat ls @ rest) \<or> rbuf (stdout c) = concat ls
      \<longrightarrow> (\<exists>c'. scan_response 500 cfg [[], ''dummy''] c
                  = Raised (RepoError ''no suitable response from remote hg'' (ssherrorhint cfg)) c')
          \<and> (\<not> closed (stdin c)
              \<longrightarrow> (\<exists>c'. performhandshake cfg c
                  = Raised (RepoError ''no suitable response from remote hg'' (ssherrorhint cfg)) c')))"
proof (intro conjI impI)
  assume "length ls < 500 \<and> properline l \<and> reupgraded_match (token cfg) l = Some v
        \<and> rbuf (stdout c) = concat ls @ l @ rest"
  then show "\<exists>c'. scan_response 500 cfg [[], ''dummy''] c = Returned (v, [[], ''dummy''] @ ls) c'
                \<and> rbuf (stdout c') = rest"
    using assms by (intro scan_response_upgraded) simp_all
next
  assume "length ls < 500 \<and> last (''dummy'' # ls) = [CHR ''1'', CHR 0x0A]
        \<and> rbuf (stdout c) = concat ls @ [CHR 0x0A] @ rest"
  then show "\<exists>c'. scan_response 500 cfg [[], ''dummy''] c
                  = Returned (sshv1 cfg, [[], ''dummy''] @ ls) c'
                \<and> rbuf (stdout c') = rest"
    using assms by (intro scan_response_legacy) simp_all
next
  assume a: "(500 \<le> length ls \<and> rbuf (stdout c) = concat ls @ rest) \<or> rbuf (stdout c) = concat ls"
  have bad: "\<exists>c'. scan_response 500 cfg [[], ''dummy''] c1
                  = Raised (RepoError ''no suitable response from remote hg'' (ssherrorhint cfg)) c'"
    if "stdout c1 = stdout c" for c1 :: "'a conn_scheme"
  proof (cases "500 \<le> length ls")
    case True
    have "rbuf (stdout c1) = concat ls @ (if rbuf (stdout c) = concat ls then [] else rest)"
      using a that by auto
    then show ?thesis
      using assms that True by (intro scan_response_budget) simp_all
  next
    case False
    then show ?thesis
      using assms that a by (intro scan_response_eof) simp_all
  qed
  from bad [of c] show "\<exists>c'. scan_response 500 cfg [[], ''dummy''] c
                  = Raised (RepoError ''no suitable response from remote hg'' (ssherrorhint cfg)) c'"
    by simp
  show "\<exists>c'. performhandshake cfg c
                  = Raised (RepoError ''no suitable response from remote hg'' (ssherrorhint cfg)) c'"
    if "\<not> closed (stdin c)"
    using that bad by (rule performhandshake_scan_raised)
qed

text \<open>C2 on an upgrading server, on a version 1 server and on a server that only
  prints a banner.\<close>

theorem handshake_scanning_witness:
  "list_all properline upgraded_response \<and> noise (token example_cfg) ''dummy'' upgraded_response
   \<and> list_all properline legacy_response \<and> noise (token example_cfg) ''dummy'' legacy_response
   \<and> properline (textline ''upgraded 4f3c exp-ssh-v2-0003'')
   \<and> reupgraded_match (token example_cfg) (textline ''upgraded 4f3c exp-ssh-v2-0003'')
       = Some ''exp-ssh-v2-0003''
   \<and> (\<exists>c'. scan_response 500 example_cfg [[], ''dummy'']
              (example_conn (concat upgraded_response
                 @ textline ''upgraded 4f3c exp-ssh-v2-0003'' @ ''22''))
            = Returned (''exp-ssh-v2-0003'', [[], ''dummy''] @ upgraded_response) c'
          \<and> rbuf (stdout c') = ''22'')
   \<and> last (''dummy'' # legacy_response) = textline ''1''
   \<and> (\<exists>c'. scan_response 500 example_cfg [[], ''dummy'']
              (example_conn (concat legacy_response @ [CHR 0x0A] @ []))
            = Returned (''ssh-v1'', [[], ''dummy''] @ legacy_response) c'
          \<and> rbuf (stdout c') = [])
   \<and> (\<exists>c'. scan_response 500 example_cfg [[], ''dummy''] (example_conn (concat upgraded_response))
            = Raised (RepoError ''no suitable response from remote hg'' (Some ''check the server'')) c')
   \<and> (\<exists>c'. performhandshake example_cfg (example_conn (concat upgraded_response))
            = Raised (RepoError ''no suitable response from remote hg'' (Some ''check the server'')) c')"
proof -
  have u: "list_all properline upgraded_response" "noise (token example_cfg) ''dummy'' upgraded_response"
    by code_simp+
  have g: "list_all properline legacy_response" "noise (token example_cfg) ''dummy'' legacy_response"
    by code_simp+
  have l: "properline (textline ''upgraded 4f3c exp-ssh-v2-0003'')"
    "reupgraded_match (token example_cfg) (textline ''upgraded 4f3c exp-ssh-v2-0003'')
       = Some ''exp-ssh-v2-0003''"
    by code_simp+
  have la: "last (''dummy'' # legacy_response) = textline ''1''"
    by code_simp
  have o: "\<not> closed (stdout (example_conn s))" "\<not> closed (stdin (example_conn s))"
    "rbuf (stdout (example_conn s)) = s" for s
    by (simp_all add: example_conn_def openpipe_def)
  have k: "length upgraded_response < 500" "length legacy_response < 500"
    by (simp_all add: upgraded_response_def legacy_response_def)
  have e: "ssherrorhint example_cfg = Some ''check the server''" "sshv1 example_cfg = ''ssh-v1''"
    by (simp_all add: example_cfg_def)
  have t1: "textline ''1'' = [CHR ''1'', CHR 0x0A]" by (simp add: textline_def)
  note a = handshake_scanning [OF u o(1), of "textline ''upgraded 4f3c exp-ssh-v2-0003''"
      "''exp-ssh-v2-0003''" _ "''22''"]
  note b = handshake_scanning [OF g o(1), of _ _ "concat legacy_response @ [CHR 0x0A] @ []" "[]"]
  note c = handshake_scanning [OF u o(1), of _ _ "concat upgraded_response" "[]"]
  show ?thesis
    using u g l la k a b c by (simp add: o e t1 del: scan_response.simps)
qed

subsection \<open>Capabilities and failed handshakes\<close>

lemma legacycaps_skip:
  "list_all (\<lambda>x. \<not> startswith x ''capabilities:'') xs \<Longrightarrow> startswith l ''capabilities:'' \<Longrightarrow>
   legacycaps (xs @ l # ys) = capstokens (butlast l)"
  by (induction xs) simp_all

lemma legacycaps_none:
  "list_all (\<lambda>x. \<not> startswith x ''capabilities:'') xs \<Longrightarrow> legacycaps xs = Inr {}"
  by (induction xs) simp_all

lemma split_on_length: "sep \<in> set s \<Longrightarrow> 2 \<le> length (split_on sep s)"
proof (induction s)
  case Nil
  then show ?case by simp
next
  case (Cons a s)
  show ?case
  proof (cases "a = sep")
    case True
    then show ?thesis using split_on_nonempty [of sep s] by (cases "split_on sep s") simp_all
  next
    case False
    then have "2 \<le> length (split_on sep s)" using Cons by simp
    then show ?thesis using False by simp
  qed
qed

lemma capsline_colon:
  assumes "properline l" "startswith l ''capabilities:''"
  shows "CHR '':'' \<in> set (butlast l)"
proof -
  from assms(2) obtain t where t: "l = ''capabilities:'' @ t"
    by (auto simp: startswith_def prefix_def)
  have "t \<noteq> []" using assms(1) t by (auto simp: properline_def)
  then have "butlast l = ''capabilities:'' @ butlast t" using t by (simp add: butlast_append)
  then show ?thesis by simp
qed

lemma capstokens_capsline:
  assumes "properline l" "startswith l ''capabilities:''"
  shows "capstokens (butlast l) = Inr (set (split_ws (split_on (CHR '':'') (butlast l) ! 1)))"
  using split_on_length [OF capsline_colon [OF assms]] by (simp add: capstokens_def)

lemma findcaps_legacy:
  assumes "properline l" "startswith l ''capabilities:''"
    and "list_all (\<lambda>x. \<not> startswith x ''capabilities:'') post"
  shows "findcaps cfg (sshv1 cfg) (pre @ l # post) c
           = Returned (set (split_ws (split_on (CHR '':'') (butlast l) ! 1))) c"
proof -
  have "legacycaps (rev (pre @ l # post)) = capstokens (butlast l)"
    using legacycaps_skip [of "rev post" l "rev pre"] assms(2,3) by simp
  then show ?thesis
    by (simp add: findcaps_def capstokens_capsline [OF assms(1,2)])
qed

lemma findcaps_legacy_none:
  assumes "list_all (\<lambda>x. \<not> startswith x ''capabilities:'') lines"
  shows "findcaps cfg (sshv1 cfg) lines c = Returned {} c"
  using legacycaps_none [of "rev lines"] assms by (simp add: findcaps_def)

lemma sendhandshake_ok:
  assumes "\<not> closed (stdin c)" "\<not> werr (stdin c)"
  shows "\<exists>c1. sendhandshake cfg c = Returned () c1 \<and> stdout c1 = stdout c"
  using assms by (simp add: sendhandshake_def Let_def pipe_write_def pipe_flush_def)

lemma performhandshake_nonempty:
  "performhandshake cfg c = Returned (pn, cs) c' \<Longrightarrow> cs \<noteq> {}"
  by (auto simp: performhandshake_def badresponse_def split: outcome.splits if_splits)

lemma performhandshake_nocaps:
  assumes "sendhandshake cfg c = Returned u c1"
    and "scan_response 500 cfg [[], ''dummy''] c1 = Returned (pn, lines) c2"
    and "findcaps cfg pn lines c2 = Returned {} c3"
  shows "performhandshake cfg c
    = Raised (RepoError ''no suitable response from remote hg'' (ssherrorhint cfg)) (conn_forward c3)"
  using assms by (simp add: performhandshake_def badresponse_def)

lemma makepeer_raised:
  "makepeer cfg path c ar evs = Raised e c' \<Longrightarrow>
   closed (stdin c') \<and> closed (stdout c') \<and> closed (stderr c')"
  by (auto simp: makepeer_def cleanuppipes_closed split: outcome.splits if_splits)

lemma makepeer_propagates:
  "performhandshake cfg c = Raised e c1 \<Longrightarrow> makepeer cfg path c ar evs = Raised e (cleanuppipes c1)"
  by (simp add: makepeer_def)

lemma performhandshake_legacy:
  fixes c :: conn
  assumes "legacy_stream cfg c ls rest"
  shows "\<exists>c2. performhandshake cfg c =
           (case findcaps cfg (sshv1 cfg) ([[], ''dummy''] @ ls) c2 of
              Blocked \<Rightarrow> Blocked
            | Raised e c3 \<Rightarrow> Raised e c3
            | Returned cs c3 \<Rightarrow>
                if cs = {} then badresponse cfg c3
                else Returned (sshv1 cfg, cs) (conn_forward c3))"
proof -
  from assms have a: "\<not> closed (stdin c)" "\<not> werr (stdin c)" "\<not> closed (stdout c)"
    "list_all properline ls" "noise (token cfg) ''dummy'' ls" "length ls < 500"
    "last (''dummy'' # ls) = [CHR ''1'', CHR 0x0A]"
    "rbuf (stdout c) = concat ls @ [CHR 0x0A] @ rest"
    by (simp_all add: legacy_stream_def)
  from sendhandshake_ok [OF a(1,2), of cfg]
  obtain c1 where c1: "sendhandshake cfg c = Returned () c1" "stdout c1 = stdout c"
    by blast
  have "\<exists>c'. scan_response 500 cfg [[], ''dummy''] c1
              = Returned (sshv1 cfg, [[], ''dummy''] @ ls) c' \<and> rbuf (stdout c') = rest"
    using a c1(2) by (intro scan_response_legacy) simp_all
  then obtain c2 where
    c2: "scan_response 500 cfg [[], ''dummy''] c1 = Returned (sshv1 cfg, [[], ''dummy''] @ ls) c2"
    by blast
  show ?thesis
    by (rule exI [of _ c2]) (simp only: performhandshake_def c1(1) c2 outcome.case prod.case)
qed

text \<open>
  Claim C7: in a handshake of version 1, the capability set comes from the last
  collected line that starts with \<^verbatim>\<open>capabilities:\<close>: the line without its last
  character is split at the colons, and the second piece is split at whitespace.  If
  that set is empty or there is no such line, \<^verbatim>\<open>_performhandshake\<close> raises the error
  \<^verbatim>\<open>no suitable response from remote hg\<close>; it does so on either path whenever no
  capability was found, so that it never returns an empty set.  An exception of the
  handshake leaves \<^verbatim>\<open>makepeer\<close> unchanged after \<^verbatim>\<open>_cleanuppipes\<close>, and whenever
  \<^verbatim>\<open>makepeer\<close> raises, the three pipes are closed.
\<close>

theorem handshake_capabilities:
  fixes c :: conn
  shows
    "(legacy_stream cfg c (pre @ l # post) rest \<and> startswith l ''capabilities:''
        \<and> list_all (\<lambda>x. \<not> startswith x ''capabilities:'') post
      \<longrightarrow> (\<exists>c'. performhandshake cfg c =
             (if set (split_ws (split_on (CHR '':'') (butlast l) ! 1)) = {}
              then Raised (RepoError ''no suitable response from remote hg'' (ssherrorhint cfg)) c'
              else Returned (sshv1 cfg, set (split_ws (split_on (CHR '':'') (butlast l) ! 1))) c')))
     \<and> (legacy_stream cfg c ls rest \<and> list_all (\<lambda>x. \<not> startswith x ''capabilities:'') ls
      \<longrightarrow> (\<exists>c'. performhandshake cfg c
                  = Raised (RepoError ''no suitable response from remote hg'' (ssherrorhint cfg)) c'))
     \<and> (sendhandshake cfg c = Returned u c1
         \<and> scan_response 500 cfg [[], ''dummy''] c1 = Returned (pn, lines) c2
         \<and> findcaps cfg pn lines c2 = Returned {} c3
      \<longrightarrow> performhandshake cfg c
            = Raised (RepoError ''no suitable response from remote hg'' (ssherrorhint cfg))
                (conn_forward c3))
     \<and> (performhandshake cfg c = Returned (pn, cs) c4 \<longrightarrow> cs \<noteq> {})
     \<and> (performhandshake cfg c = Raised e c5
      \<longrightarrow> makepeer cfg path c ar evs = Raised e (cleanuppipes c5))
     \<and> (makepeer cfg path c ar evs = Raised e c6
      \<longrightarrow> closed (stdin c6) \<and> closed (stdout c6) \<and> closed (stderr c6))"
proof (intro conjI impI)
  assume a: "legacy_stream cfg c (pre @ l # post) rest \<and> startswith l ''capabilities:''
        \<and> list_all (\<lambda>x. \<not> startswith x ''capabilities:'') post"
  then have pl: "properline l" by (simp add: legacy_stream_def)
  from a performhandshake_legacy [of cfg c "pre @ l # post" rest]
  obtain c2 where c2: "performhandshake cfg c =
           (case findcaps cfg (sshv1 cfg) ([[], ''dummy''] @ pre @ l # post) c2 of
              Blocked \<Rightarrow> Blocked
            | Raised e c3 \<Rightarrow> Raised e c3
            | Returned cs c3 \<Rightarrow>
                if cs = {} then badresponse cfg c3
                else Returned (sshv1 cfg, cs) (conn_forward c3))"
    by blast
  have f: "findcaps cfg (sshv1 cfg) (([[], ''dummy''] @ pre) @ l # post) c2
           = Returned (set (split_ws (split_on (CHR '':'') (butlast l) ! 1))) c2"
    using pl a by (intro findcaps_legacy) simp_all
  show "\<exists>c'. performhandshake cfg c =
             (if set (split_ws (split_on (CHR '':'') (butlast l) ! 1)) = {}
              then Raised (RepoError ''no suitable response from remote hg'' (ssherrorhint cfg)) c'
              else Returned (sshv1 cfg, set (split_ws (split_on (CHR '':'') (butlast l) ! 1))) c')"
    using f by (intro exI [of _ "conn_forward c2"]) (simp add: c2 badresponse_def)
next
  assume a: "legacy_stream cfg c ls rest \<and> list_all (\<lambda>x. \<not> startswith x ''capabilities:'') ls"
  from a performhandshake_legacy [of cfg c ls rest]
  obtain c2 where c2: "performhandshake cfg c =
           (case findcaps cfg (sshv1 cfg) ([[], ''dummy''] @ ls) c2 of
              Blocked \<Rightarrow> Blocked
            | Raised e c3 \<Rightarrow> Raised e c3
            | Returned cs c3 \<Rightarrow>
                if cs = {} then badresponse cfg c3
                else Returned (sshv1 cfg, cs) (conn_forward c3))"
    by blast
  have "list_all (\<lambda>x. \<not> startswith x ''capabilities:'') ([[], ''dummy''] @ ls)"
    using a by (simp add: startswith_def)
  then have "findcaps cfg (sshv1 cfg) ([[], ''dummy''] @ ls) c2 = Returned {} c2"
    by (rule findcaps_legacy_none)
  then show "\<exists>c'. performhandshake cfg c
                  = Raised (RepoError ''no suitable response from remote hg'' (ssherrorhint cfg)) c'"
    by (simp add: c2 badresponse_def)
next
  assume "sendhandshake cfg c = Returned u c1
         \<and> scan_response 500 cfg [[], ''dummy''] c1 = Returned (pn, lines) c2
         \<and> findcaps cfg pn lines c2 = Returned {} c3"
  then show "performhandshake cfg c
            = Raised (RepoError ''no suitable response from remote hg'' (ssherrorhint cfg))
                (conn_forward c3)"
    using performhandshake_nocaps by blast
next
  assume "performhandshake cfg c = Returned (pn, cs) c4"
  then show "cs \<noteq> {}" by (rule performhandshake_nonempty)
next
  assume "performhandshake cfg c = Raised e c5"
  then show "makepeer cfg path c ar evs = Raised e (cleanuppipes c5)"
    by (rule makepeer_propagates)
next
  assume m: "makepeer cfg path c ar evs = Raised e c6"
  from makepeer_raised [OF m]
  show "closed (stdin c6)" "closed (stdout c6)" "closed (stderr c6)" by simp_all
qed

text \<open>C7 on a version 1 server that advertises \<^verbatim>\<open>foo bar\<close>, on one without a
  capabilities line, and on a version 2 server with an empty capabilities text.\<close>

theorem handshake_capabilities_witness:
  "legacy_stream example_cfg (example_conn (concat legacy_response @ [CHR 0x0A]))
      ([textline ''0'', textline ''22''] @ textline ''capabilities: foo bar'' # [textline ''1'']) []
   \<and> startswith (textline ''capabilities: foo bar'') ''capabilities:''
   \<and> (\<exists>c'. performhandshake example_cfg (example_conn (concat legacy_response @ [CHR 0x0A]))
             = Returned (''ssh-v1'', {''foo'', ''bar''}) c')
   \<and> legacy_stream example_cfg (example_conn (concat nocaps_response @ [CHR 0x0A]))
        nocaps_response []
   \<and> (\<exists>c'. performhandshake example_cfg (example_conn (concat nocaps_response @ [CHR 0x0A]))
             = Raised (RepoError ''no suitable response from remote hg''
                         (Some ''check the server'')) c')
   \<and> (\<exists>c'. performhandshake example_cfg (example_conn upgraded_nocaps_output)
             = Raised (RepoError ''no suitable response from remote hg''
                         (Some ''check the server'')) c')
   \<and> (\<exists>c'. makepeer example_cfg ''ssh://host/repo''
               (example_conn (concat nocaps_response @ [CHR 0x0A])) True []
             = Raised (RepoError ''no suitable response from remote hg''
                         (Some ''check the server'')) c'
           \<and> closed (stdin c') \<and> closed (stdout c') \<and> closed (stderr c'))"
proof -
  let ?cfg = example_cfg
  let ?err = "RepoError ''no suitable response from remote hg'' (Some ''check the server'')"
  let ?A = "example_conn (concat legacy_response @ [CHR 0x0A])"
  let ?B = "example_conn (concat nocaps_response @ [CHR 0x0A])"
  let ?C = "example_conn upgraded_nocaps_output"
  have hint: "ssherrorhint ?cfg = Some ''check the server''" "sshv1 ?cfg = ''ssh-v1''"
    by (simp_all add: example_cfg_def)
  \<comment> \<open>the version 1 server with capabilities\<close>
  have a1: "legacy_stream ?cfg ?A
      ([textline ''0'', textline ''22''] @ textline ''capabilities: foo bar'' # [textline ''1'']) []"
    by code_simp
  have a2: "startswith (textline ''capabilities: foo bar'') ''capabilities:''"
    by code_simp
  have a3: "list_all (\<lambda>x. \<not> startswith x ''capabilities:'') [textline ''1'']"
    by code_simp
  have a4: "split_ws (split_on (CHR '':'') (butlast (textline ''capabilities: foo bar'')) ! 1)
      = [''foo'', ''bar'']"
    by code_simp
  note A = handshake_capabilities [where cfg = ?cfg and c = ?A
      and pre = "[textline ''0'', textline ''22'']" and l = "textline ''capabilities: foo bar''"
      and post = "[textline ''1'']" and rest = "[]"]
  have ra: "\<exists>c'. performhandshake ?cfg ?A = Returned (''ssh-v1'', {''foo'', ''bar''}) c'"
    using A a1 a2 a3 unfolding a4 hint by auto
  \<comment> \<open>the version 1 server without capabilities\<close>
  have b1: "legacy_stream ?cfg ?B nocaps_response []"
    by code_simp
  have b2: "list_all (\<lambda>x. \<not> startswith x ''capabilities:'') nocaps_response"
    by code_simp
  note B = handshake_capabilities [where cfg = ?cfg and c = ?B and ls = nocaps_response
      and rest = "[]"]
  have rb: "\<exists>c'. performhandshake ?cfg ?B = Raised ?err c'"
    using B b1 b2 unfolding hint by blast
  then obtain c5 where c5: "performhandshake ?cfg ?B = Raised ?err c5"
    by blast
  note E = handshake_capabilities [where cfg = ?cfg and c = ?B and e = ?err and ?c5.0 = c5
      and path = "''ssh://host/repo''" and ar = True and evs = "[]"]
  have m: "makepeer ?cfg ''ssh://host/repo'' ?B True [] = Raised ?err (cleanuppipes c5)"
    using E c5 by blast
  note F = handshake_capabilities [where cfg = ?cfg and c = ?B and e = ?err
      and path = "''ssh://host/repo''" and ar = True and evs = "[]"
      and ?c6.0 = "cleanuppipes c5"]
  have rm: "\<exists>c'. makepeer ?cfg ''ssh://host/repo'' ?B True [] = Raised ?err c'
           \<and> closed (stdin c') \<and> closed (stdout c') \<and> closed (stderr c')"
    using F m by blast
  \<comment> \<open>the upgrading server without capabilities\<close>
  let ?c1 = "the (outcome_state (sendhandshake ?cfg ?C))"
  let ?c2 = "the (outcome_state (scan_response 500 ?cfg [[], ''dummy''] ?c1))"
  let ?c3 = "the (outcome_state (findcaps ?cfg ''exp-ssh-v2-0003'' [[], ''dummy''] ?c2))"
  have c1: "sendhandshake ?cfg ?C = Returned () ?c1"
    by code_simp
  have c2: "scan_response 500 ?cfg [[], ''dummy''] ?c1
      = Returned (''exp-ssh-v2-0003'', [[], ''dummy'']) ?c2"
    by code_simp
  have c3: "findcaps ?cfg ''exp-ssh-v2-0003'' [[], ''dummy''] ?c2 = Returned {} ?c3"
    by code_simp
  note C = handshake_capabilities [where cfg = ?cfg and c = ?C and u = "()" and ?c1.0 = ?c1
      and pn = "''exp-ssh-v2-0003''" and lines = "[[], ''dummy'']" and ?c2.0 = ?c2
      and ?c3.0 = ?c3]
  have rc: "\<exists>c'. performhandshake ?cfg ?C = Raised ?err c'"
    using C c1 c2 c3 unfolding hint by blast
  show ?thesis
    using a1 a2 ra b1 rb rc rm by blast
qed

end
